theory Spec2Isabelle
  imports Complex_Main "HOL-Library.Word" "HOL-Library.Signed_Division"
begin

unbundle bit_operations_syntax

section \<open>Machine types and errors\<close>

text \<open>
  The GRIB buffer is an array of \<open>unsigned char\<close>; the octet contents are unpacked into
  and packed from a C \<open>int\<close> (32 bits, two's complement).  A call of \<open>exit(1)\<close> and an
  access outside an array are results of their own.
\<close>

type_synonym byte = "8 word"
type_synonym cint = "32 word"

datatype error = FieldTooWide | OutOfBounds | Fatal

fun bindE :: "error + 'a \<Rightarrow> ('a \<Rightarrow> error + 'b) \<Rightarrow> error + 'b" where
  "bindE (Inl e) f = Inl e"
| "bindE (Inr x) f = f x"

section \<open>The bit-packed octet codec\<close>

text \<open>
  Both \<open>get_bits\<close> and \<open>set_bits\<close> build their masks with a loop that shifts a one in
  from the right: \<open>bmask\<close> for the 8-bit buffer word, \<open>lmask\<close>/\<open>smask\<close> for the \<open>int\<close>.
\<close>

function mask_loop :: "nat \<Rightarrow> nat \<Rightarrow> 'a::len word \<Rightarrow> 'a word" where
  "mask_loop n sz m = (if n < sz then mask_loop (Suc n) sz (push_bit 1 m + 1) else m)"
  by pat_completeness auto
termination
  by (relation "measure (\<lambda>(n, sz, m). sz - n)") auto

definition bmask :: cint where
  "bmask = ucast (mask_loop 1 8 (1 :: byte))"

definition lmask :: cint where
  "lmask = mask_loop 1 32 1"

text \<open>The loop \<open>while (rshift < 0)\<close> of \<open>get_bits\<close> over the state \<open>(wskip, rshift, *loc)\<close>.\<close>

function get_bits_loop :: "byte list \<Rightarrow> nat \<Rightarrow> int \<Rightarrow> cint \<Rightarrow> error + (nat \<times> int \<times> cint)" where
  "get_bits_loop buf wskip rshift loc =
     (if rshift < 0 then
        (if wskip < length buf
         then get_bits_loop buf (wskip + 1) (rshift + 8)
                (loc + push_bit (nat (- rshift)) (ucast (buf ! wskip)))
         else Inl OutOfBounds)
      else Inr (wskip, rshift, loc))"
  by pat_completeness auto
termination
  by (relation "measure (\<lambda>(buf, wskip, rshift, loc). nat (- rshift))") auto

declare get_bits_loop.simps [simp del]

text \<open>
  \<open>get_bits buf loc off bits\<close>: the value of \<open>*loc\<close> after the call.  With \<open>bits = 0\<close> the
  function returns at once and \<open>*loc\<close> keeps the value it had.
\<close>

definition get_bits :: "byte list \<Rightarrow> cint \<Rightarrow> nat \<Rightarrow> nat \<Rightarrow> error + cint" where
  "get_bits buf loc off bits =
     (if bits = 0 then Inr loc
      else if bits > 32 then Inl FieldTooWide
      else
        let wskip = off div 8;
            rshift = 8 - int (off mod 8) - int bits
        in bindE
            (if rshift < 0 then
               bindE (get_bits_loop buf wskip rshift 0) (\<lambda>(wskip, rshift, loc).
                 if wskip < length buf then
                   (if rshift \<noteq> 0
                    then Inr (loc + (drop_bit (nat rshift) (ucast (buf ! wskip))
                                      AND NOT (push_bit (8 - nat rshift) bmask)))
                    else Inr (loc + ucast (buf ! wskip)))
                 else Inl OutOfBounds)
             else if wskip < length buf
               then Inr (drop_bit (nat rshift) (ucast (buf ! wskip)))
               else Inl OutOfBounds)
            (\<lambda>loc. if bits \<noteq> 32 then Inr (loc AND NOT (push_bit bits lmask)) else Inr loc))"

text \<open>
  The loop \<open>while (more > buf_size)\<close> of \<open>set_bits\<close> over the state \<open>(buf, wskip, more)\<close>;
  \<open>mid_byte src more\<close> is the value \<open>(src>>more)&~(smask<<(src_size-more))\<close> as stored into
  the \<open>unsigned char\<close>.
\<close>

definition mid_byte :: "cint \<Rightarrow> nat \<Rightarrow> byte" where
  "mid_byte src more = ucast (signed_drop_bit more src AND NOT (push_bit (32 - more) lmask))"

function set_bits_loop :: "cint \<Rightarrow> byte list \<Rightarrow> nat \<Rightarrow> nat \<Rightarrow> error + (byte list \<times> nat \<times> nat)" where
  "set_bits_loop src buf wskip more =
     (if more > 8 then
        (let more = more - 8; wskip = wskip + 1 in
         if wskip < length buf
         then set_bits_loop src (buf[wskip := mid_byte src more]) wskip more
         else Inl OutOfBounds)
      else Inr (buf, wskip, more))"
  by pat_completeness auto
termination
  by (relation "measure (\<lambda>(src, buf, wskip, more). more)") auto

declare set_bits_loop.simps [simp del]

text \<open>
  \<open>set_bits buf src off bits\<close>: the buffer after the call.  A value stored into an
  \<open>unsigned char\<close> keeps its low eight bits; \<open>src >> more\<close> is the arithmetic shift of the
  signed \<open>int\<close>.
\<close>

definition set_bits :: "byte list \<Rightarrow> cint \<Rightarrow> nat \<Rightarrow> nat \<Rightarrow> error + byte list" where
  "set_bits buf src off bits =
     (if bits = 0 then Inr buf
      else if bits > 32 then Inl FieldTooWide
      else
        let wskip = off div 8;
            bskip = off mod 8;
            lclear = bskip + bits;
            rclear = 8 - bskip
        in if \<not> wskip < length buf then Inl OutOfBounds
        else
          let left = (if rclear \<noteq> 8 then (ucast (ucast (buf ! wskip) AND push_bit rclear bmask) :: byte) else 0)
          in if lclear \<le> 8 then
               let right = (if lclear \<noteq> 8
                            then (ucast (ucast (buf ! wskip) AND NOT (push_bit (8 - lclear) bmask)) :: byte)
                            else 0);
                   b = (ucast (if 32 \<noteq> bits then src AND NOT (push_bit bits lmask) else src) :: byte)
               in Inr (buf[wskip := ucast ((ucast left :: cint) OR ucast right OR push_bit (rclear - bits) (ucast b))])
             else
               let more = bits - rclear;
                   buf = buf[wskip := ucast ((ucast left :: cint) OR
                           (signed_drop_bit more src AND NOT (push_bit (bits - more) lmask)))]
               in bindE (set_bits_loop src buf wskip more) (\<lambda>(buf, wskip, more).
                    let wskip = wskip + 1;
                        more = 8 - more
                    in if \<not> wskip < length buf then Inl OutOfBounds
                    else
                      let right = (if more \<noteq> 8
                                   then (ucast (ucast (buf ! wskip) AND NOT (push_bit more bmask)) :: byte)
                                   else 0);
                          b = (ucast (if (8::nat) > 32 then src AND NOT (push_bit 32 bmask) else src) :: byte)
                      in Inr (buf[wskip := ucast ((ucast right :: cint) OR push_bit more (ucast b))])))"

text \<open>
  Bit \<open>j\<close> of the buffer, counted from the most significant bit of byte 0: the order in
  which both functions address the stream.
\<close>

definition bbit :: "byte list \<Rightarrow> nat \<Rightarrow> bool" where
  "bbit buf j = bit (buf ! (j div 8)) (7 - j mod 8)"

text \<open>
  A run of \<open>set_bits\<close> calls on one buffer, in program order; each call is the triple
  \<open>(src, off, bits)\<close>.  The first failing call ends the run.
\<close>

type_synonym bit_write = "cint \<times> nat \<times> nat"

fun set_bits_all :: "byte list \<Rightarrow> bit_write list \<Rightarrow> error + byte list" where
  "set_bits_all buf [] = Inr buf"
| "set_bits_all buf ((src, off, bits) # ws) =
     bindE (set_bits buf src off bits) (\<lambda>buf'. set_bits_all buf' ws)"

fun in_window :: "nat \<Rightarrow> bit_write \<Rightarrow> bool" where
  "in_window j (src, off, bits) = (off \<le> j \<and> j < off + bits)"

fun windows_apart :: "bit_write \<Rightarrow> bit_write \<Rightarrow> bool" where
  "windows_apart (src1, off1, bits1) (src2, off2, bits2) =
     (off1 + bits1 \<le> off2 \<or> off2 + bits2 \<le> off1)"

fun disjoint_windows :: "bit_write list \<Rightarrow> bool" where
  "disjoint_windows [] = True"
| "disjoint_windows (w # ws) = (list_all (windows_apart w) ws \<and> disjoint_windows ws)"

fun window_fits :: "nat \<Rightarrow> bit_write \<Rightarrow> bool" where
  "window_fits len (src, off, bits) = (1 \<le> bits \<and> bits \<le> 32 \<and> off + bits \<le> 8 * len)"

text \<open>
  A field of the message structures is a C \<open>int\<close>.  The structures below keep such a
  field as an integer; \<open>get_int\<close> is \<open>get_bits\<close> called on the address of such a field
  (\<open>loc\<close> is the value the field had), \<open>to_cint\<close> the conversion of an argument to the
  \<open>int src\<close> parameter of \<open>set_bits\<close>, \<open>c_int\<close> the result of \<open>int\<close> arithmetic that wraps
  around, and \<open>to_size_t\<close> the conversion of an \<open>int\<close> to the 64-bit \<open>size_t\<close>.
\<close>

definition to_cint :: "int \<Rightarrow> cint" where
  "to_cint i = word_of_int i"

definition c_int :: "int \<Rightarrow> int" where
  "c_int i = sint (to_cint i)"

definition to_size_t :: "int \<Rightarrow> nat" where
  "to_size_t i = nat (i mod 2 ^ 64)"

definition get_int :: "byte list \<Rightarrow> int \<Rightarrow> nat \<Rightarrow> nat \<Rightarrow> error + int" where
  "get_int buf loc off bits = bindE (get_bits buf (to_cint loc) off bits) (\<lambda>v. Inr (sint v))"

text \<open>
  The doubles of the program are modelled as real numbers: the arithmetic on them is
  exact here, without rounding, overflow or NaN.  \<open>pow(b, i)\<close> with an integer exponent
  is \<open>power_int b i\<close>.
\<close>

definition GRIB_MISSING_VALUE :: real where
  "GRIB_MISSING_VALUE = 10 ^ 30"

text \<open>\<open>lround\<close>: to the nearest integer, halfway cases away from zero.\<close>

definition lround :: "real \<Rightarrow> int" where
  "lround x = (if 0 \<le> x then \<lfloor>x + 1 / 2\<rfloor> else - \<lfloor>- x + 1 / 2\<rfloor>)"

section \<open>GRIB edition 2: the decoder's structures (unpackgrib2.c)\<close>

text \<open>
  The fields of \<open>GRIB2Metadata\<close>, \<open>GRIB2Grid\<close> and \<open>GRIB2Message\<close> that the functions below
  read or write.  An array is a list whose length is the allocated capacity; a pointer
  that may be \<open>NULL\<close> is an option.
\<close>

record stat_proc_t =
  eyr :: int
  emo :: int
  edy :: int
  etime :: int
  num_ranges :: int
  nmiss :: int
  proc_code :: "int list"
  time_length :: "int list"
  incr_length :: "int list"

record GRIB2Metadata =
  nx :: int
  ny :: int
  pds_templ_num :: int
  param_cat :: int
  param_num :: int
  time_unit :: int
  fcst_time :: int
  stat_proc :: stat_proc_t
  drs_templ_num :: int
  R :: real
  E :: int
  D :: int
  pack_width :: int
  bitmap :: "byte list option"

record GRIB2Grid =
  md :: GRIB2Metadata
  gridpoints :: "real list"

record GRIB2Message =
  buffer :: "byte list"
  offset :: nat
  total_len :: int
  disc :: int
  ed_num :: int
  yr :: int
  mo :: int
  dy :: int
  time :: int
  md :: GRIB2Metadata
  num_grids :: int
  grids :: "GRIB2Grid list"

subsection \<open>The Indicator Section\<close>

text \<open>
  The input file is the list of the bytes not read yet.  \<open>fread ptr 1 n fp\<close> takes up
  to \<open>n\<close> of them; \<open>fread_into\<close> stores them at \<open>temp[k]\<close> onwards and leaves the rest of
  \<open>temp\<close> as it was.
\<close>

definition fread_into :: "byte list \<Rightarrow> nat \<Rightarrow> nat \<Rightarrow> byte list \<Rightarrow> nat \<times> byte list \<times> byte list" where
  "fread_into temp k n fp =
     (let got = take n fp
      in (length got, take k temp @ got @ drop (k + length got) temp, drop n fp))"

text \<open>
  The search for the beginning of the next message: the loop
  \<open>while (temp[0] != 0x47 || temp[1] != 0x52 || temp[2] != 0x49 || temp[3] != 0x42)\<close>.
  The result is \<open>None\<close> where the loop returns \<open>-1\<close> from \<open>unpack_IS\<close>.
\<close>

function find_GRIB :: "byte list \<Rightarrow> byte list \<Rightarrow> (byte list \<times> byte list) option" where
  "find_GRIB temp fp =
     (if temp ! 0 \<noteq> 0x47 \<or> temp ! 1 \<noteq> 0x52 \<or> temp ! 2 \<noteq> 0x49 \<or> temp ! 3 \<noteq> 0x42 then
        (let (status, temp', fp') =
           (if temp ! 1 = 0x47 then
              fread_into ([temp ! 1, temp ! 2, temp ! 3] @ drop 3 temp) 3 1 fp
            else if temp ! 2 = 0x47 then
              fread_into ([temp ! 2, temp ! 3] @ drop 2 temp) 2 2 fp
            else if temp ! 3 = 0x47 then
              fread_into ([temp ! 3] @ drop 1 temp) 1 3 fp
            else fread_into temp 0 4 fp)
         in if status = 0 then None else find_GRIB temp' fp')
      else Some (temp, fp))"
  by pat_completeness auto
termination
  by (relation "measure (\<lambda>(temp, fp). length fp)")
     (auto simp: fread_into_def Let_def split: if_splits)

declare find_GRIB.simps [simp del]

text \<open>
  \<open>unpack_IS\<close> of unpackgrib2.c.  \<open>temp0\<close> is the content of the local array
  \<open>unsigned char temp[16]\<close> on entry and \<open>fresh\<close> the content of newly allocated memory,
  both indeterminate in C.  The result is the returned status, the message and the rest
  of the file.  \<open>total_len\<close> is an \<open>int\<close>: the 32 bits read are taken as two's
  complement; \<open>required_size\<close> and \<open>num\<close> are \<open>size_t\<close> (64 bits).  An allocation of
  \<open>2^63\<close> bytes or more fails, and the \<open>memcpy\<close> to the null pointer is a fault, as is a
  copy or a read that runs past the end of the buffer.
\<close>

definition unpack_IS :: "byte list \<Rightarrow> (nat \<Rightarrow> byte) \<Rightarrow> (nat \<Rightarrow> byte) \<Rightarrow> GRIB2Message
    \<Rightarrow> error + (int \<times> GRIB2Message \<times> byte list)" where
  "unpack_IS fp temp0 fresh grib2_msg0 =
     (let grib2_msg = grib2_msg0\<lparr>num_grids := 0\<rparr>;
          (status, temp, fp) = fread_into (map temp0 [0..<16]) 0 4 fp
      in if status \<noteq> 4 then
           (if status = 0 then Inr (-1, grib2_msg, fp) else Inr (1, grib2_msg, fp))
         else
           case find_GRIB temp fp of
             None \<Rightarrow> Inr (-1, grib2_msg, [])
           | Some (temp, fp) \<Rightarrow>
               let (status, temp, fp) = fread_into temp 4 12 fp
               in if status = 0 then Inr (1, grib2_msg, fp)
                  else
                    bindE (get_int temp (disc grib2_msg) 48 8) (\<lambda>v.
                    let grib2_msg = grib2_msg\<lparr>disc := v\<rparr> in
                    bindE (get_int temp (ed_num grib2_msg) 56 8) (\<lambda>v.
                    let grib2_msg = grib2_msg\<lparr>ed_num := v\<rparr> in
                    bindE (get_int temp (total_len grib2_msg) 96 32) (\<lambda>v.
                    let grib2_msg = grib2_msg\<lparr>total_len := v\<rparr>;
                        grib2_msg = grib2_msg\<lparr>md := (md grib2_msg)\<lparr>nx := 0, ny := 0\<rparr>\<rparr>;
                        required_size = to_size_t (c_int (total_len grib2_msg + 4));
                        buf = (if required_size > length (buffer grib2_msg)
                               then map fresh [0..<required_size]
                               else buffer grib2_msg)
                    in if length buf < 16 \<or> 2 ^ 63 \<le> required_size then Inl OutOfBounds
                       else
                         let buf = temp @ drop 16 buf;
                             num = to_size_t (c_int (total_len grib2_msg - 16));
                             got = take num fp;
                             fp = drop num fp;
                             status = sint (word_of_int (int (length got)) :: cint)
                         in if 16 + length got > length buf then Inl OutOfBounds
                            else
                              let grib2_msg = grib2_msg\<lparr>buffer :=
                                    take 16 buf @ got @ drop (16 + length got) buf\<rparr>
                              in if status mod 2 ^ 64 \<noteq> int num then Inr (1, grib2_msg, fp)
                                 else Inr (0, grib2_msg\<lparr>offset := 128\<rparr>, fp)))))"

subsection \<open>The Data Section, simple packing\<close>

text \<open>
  The loop of the \<open>case 0\<close> block of \<open>unpack_DS\<close> (data representation template 0),
  \<open>for (n = 0; n < ny*nx; ++n)\<close>, by recursion on the number of points still to do.
  \<open>pval\<close> is declared in the loop body without a value: \<open>junk\<close> is what it holds before
  \<open>get_bits\<close> is called (and after, when \<open>pack_width\<close> is 0).  The result is the list of the
  values stored into \<open>gridpoints[n]\<close>, \<open>gridpoints[n+1]\<close>, ...
\<close>

fun ds_points :: "nat \<Rightarrow> nat \<Rightarrow> nat \<Rightarrow> byte list option \<Rightarrow> byte list \<Rightarrow> nat \<Rightarrow> cint
    \<Rightarrow> real \<Rightarrow> real \<Rightarrow> real \<Rightarrow> error + real list" where
  "ds_points 0 n off bm buf pw junk Rv E_factor D_factor = Inr []"
| "ds_points (Suc k) n off bm buf pw junk Rv E_factor D_factor =
     bindE (case bm of
              None \<Rightarrow> Inr True
            | Some b \<Rightarrow> if n < length b then Inr (b ! n = 1) else Inl OutOfBounds) (\<lambda>present.
       if present then
         bindE (get_bits buf junk off pw) (\<lambda>pval.
         bindE (ds_points k (n + 1) (off + pw) bm buf pw junk Rv E_factor D_factor) (\<lambda>rest.
           Inr ((Rv + real_of_int (sint pval) * E_factor / D_factor) # rest)))
       else
         bindE (ds_points k (n + 1) off bm buf pw junk Rv E_factor D_factor) (\<lambda>rest.
           Inr (GRIB_MISSING_VALUE # rest)))"

text \<open>
  The \<open>case 0\<close> block of \<open>unpack_DS\<close>: the array of the grid grows to \<open>ny*nx\<close> points when
  its capacity is smaller, and the loop fills its first \<open>ny*nx\<close> elements.
\<close>

definition unpack_DS_simple :: "GRIB2Message \<Rightarrow> nat \<Rightarrow> cint \<Rightarrow> error + GRIB2Message" where
  "unpack_DS_simple grib2_msg grid_num junk =
     (let D_factor = power_int 10 (D (md grib2_msg));
          E_factor = power_int 2 (E (md grib2_msg));
          off = offset grib2_msg + 40;
          required_size = to_size_t (c_int (ny (md grib2_msg) * nx (md grib2_msg)))
      in if \<not> grid_num < length (grids grib2_msg) then Inl OutOfBounds
         else
           let grid = grids grib2_msg ! grid_num;
               old = (if required_size > length (gridpoints grid) then [] else gridpoints grid)
           in bindE (ds_points required_size 0 off (bitmap (md grib2_msg)) (buffer grib2_msg)
                       (to_size_t (pack_width (md grib2_msg))) junk (R (md grib2_msg))
                       E_factor D_factor) (\<lambda>vals.
                Inr (grib2_msg\<lparr>grids := (grids grib2_msg)
                       [grid_num := grid\<lparr>gridpoints := vals @ drop (length vals) old\<rparr>]\<rparr>)))"

section \<open>GRIB edition 2 to edition 1: the encoder (grib2to1.c)\<close>

subsection \<open>The time range\<close>

definition mapStatisticalEndTime :: "GRIB2Message \<Rightarrow> GRIB2Grid \<Rightarrow> error + int" where
  "mapStatisticalEndTime msg grid =
     (let tu = time_unit (GRIB2Grid.md grid); sp = stat_proc (GRIB2Grid.md grid)
      in if tu = 0 then Inr ((etime sp sdiv 100) smod 100 - (time msg sdiv 100) smod 100)
         else if tu = 1 then Inr (etime sp sdiv 10000 - time msg sdiv 10000)
         else if tu = 2 then Inr (edy sp - dy msg)
         else if tu = 3 then Inr (emo sp - mo msg)
         else if tu = 4 then Inr (eyr sp - yr msg)
         else Inl Fatal)"

text \<open>Element 0 of one of the arrays of the statistical-process block.\<close>

definition elem :: "int list \<Rightarrow> nat \<Rightarrow> error + int" where
  "elem xs i = (if i < length xs then Inr (xs ! i) else Inl OutOfBounds)"

text \<open>
  The values of \<open>*p1\<close>, \<open>*p2\<close>, \<open>*t_range\<close>, \<open>*n_avg\<close> and \<open>*n_missing\<close> after the call; the
  arguments \<open>p1\<close>, ..., \<open>n_missing\<close> are the values before it (a path that does not assign
  one of them leaves it as it was).
\<close>

record time_range_out =
  out_p1 :: int
  out_p2 :: int
  out_t_range :: int
  out_n_avg :: int
  out_n_missing :: int

definition ncep_t_range :: "int \<Rightarrow> error + int" where
  "ncep_t_range pc =
     (if pc = 193 then Inr 113 else if pc = 194 then Inr 123 else if pc = 195 then Inr 128
      else if pc = 196 then Inr 129 else if pc = 197 then Inr 130 else if pc = 198 then Inr 131
      else if pc = 199 then Inr 132 else if pc = 200 then Inr 133 else if pc = 201 then Inr 134
      else if pc = 202 then Inr 135 else if pc = 203 then Inr 136 else if pc = 204 then Inr 137
      else if pc = 205 then Inr 138 else if pc = 206 then Inr 139 else if pc = 207 then Inr 140
      else Inl Fatal)"

text \<open>
  The statements \<open>*p1=fcst_time; *p2=mapStatisticalEndTime(msg,grid); if (incr_length[0] == 0)
  *n_avg=0; else exit(1)\<close> that three branches of \<open>mapTimeRange\<close> share.
\<close>

definition single_range :: "GRIB2Message \<Rightarrow> GRIB2Grid \<Rightarrow> time_range_out \<Rightarrow> error + time_range_out" where
  "single_range msg grid out =
     bindE (mapStatisticalEndTime msg grid) (\<lambda>e.
     bindE (elem (incr_length (stat_proc (GRIB2Grid.md grid))) 0) (\<lambda>il.
       if il = 0
       then Inr (out\<lparr>out_p1 := fcst_time (GRIB2Grid.md grid), out_p2 := e, out_n_avg := 0\<rparr>)
       else Inl Fatal))"

definition mapTimeRange :: "GRIB2Message \<Rightarrow> GRIB2Grid \<Rightarrow> time_range_out \<Rightarrow> int
    \<Rightarrow> error + time_range_out" where
  "mapTimeRange msg grid out center =
     (let gmd = GRIB2Grid.md grid; sp = stat_proc gmd; t = pds_templ_num gmd
      in if t = 0 \<or> t = 1 \<or> t = 2 \<or> t = 15 then
           Inr (out\<lparr>out_t_range := (if time_unit gmd = 0 then 10 else 0),
                     out_p1 := fcst_time gmd, out_p2 := 0, out_n_avg := 0, out_n_missing := 0\<rparr>)
         else if t = 8 \<or> t = 11 \<or> t = 12 then
           bindE
             (if num_ranges sp > 1 then
                (if center = 7 \<and> num_ranges sp = 2 then
                   bindE (elem (incr_length sp) 0) (\<lambda>il0.
                   bindE (elem (time_length sp) 1) (\<lambda>tl1.
                   bindE (elem (time_length sp) 0) (\<lambda>tl0.
                   bindE (elem (proc_code sp) 0) (\<lambda>pc.
                   bindE (ncep_t_range pc) (\<lambda>tr.
                     Inr (out\<lparr>out_p2 := il0, out_p1 := il0 - tl1, out_n_avg := tl0,
                               out_t_range := tr\<rparr>))))))
                 else Inl Fatal)
              else
                bindE (elem (proc_code sp) 0) (\<lambda>pc.
                  if pc = 0 \<or> pc = 1 \<or> pc = 4 then
                    single_range msg grid
                      (out\<lparr>out_t_range := (if pc = 0 then 3 else if pc = 1 then 4 else 5)\<rparr>)
                  else if pc = 2 \<or> pc = 3 then
                    single_range msg grid (out\<lparr>out_t_range := 2\<rparr>)
                  else if pc = 255 \<and> center = 7 then
                    (if disc msg = 0 \<and> param_cat gmd = 0
                        \<and> (param_num gmd = 4 \<or> param_num gmd = 5)
                     then single_range msg grid (out\<lparr>out_t_range := 2\<rparr>)
                     else Inr out)
                  else Inl Fatal))
             (\<lambda>out. Inr (out\<lparr>out_n_missing := nmiss sp\<rparr>))
         else Inl Fatal)"

subsection \<open>The pack width\<close>

text \<open>
  The scan of the gridpoints in \<open>main\<close> that fills \<open>pvals\<close> and finds \<open>max_pack\<close>, by
  recursion on the points still to scan.  \<open>pvals\<close> is an array of \<open>int\<close>, \<open>max_pack\<close> a
  \<open>size_t\<close>: the comparison \<open>pvals[cnt] > max_pack\<close> converts the \<open>int\<close> to \<open>size_t\<close> and
  is unsigned.  The result is the filled part of \<open>pvals\<close> and \<open>max_pack\<close>.
\<close>

type_synonym csize = "64 word"

fun scan_points :: "real list \<Rightarrow> nat \<Rightarrow> nat \<Rightarrow> cint list \<Rightarrow> csize \<Rightarrow> real \<Rightarrow> int \<Rightarrow> int
    \<Rightarrow> error + (cint list \<times> csize)" where
  "scan_points [] cnt num_to_pack pvals max_pack Rv Dv Ev = Inr (pvals, max_pack)"
| "scan_points (g # gs) cnt num_to_pack pvals max_pack Rv Dv Ev =
     (if g \<noteq> GRIB_MISSING_VALUE then
        (if cnt = num_to_pack then Inl Fatal
         else
           let pv = to_cint (lround ((g - Rv) * power_int 10 Dv / power_int 2 Ev));
               max_pack = (if (scast pv :: csize) > max_pack then scast pv else max_pack)
           in scan_points gs (cnt + 1) num_to_pack (pvals @ [pv]) max_pack Rv Dv Ev)
      else scan_points gs cnt num_to_pack pvals max_pack Rv Dv Ev)"

text \<open>
  The loop \<open>while (pow(2.,pack_width)-1 < max_pack) ++pack_width\<close> (\<open>width\<close> is the local
  \<open>pack_width\<close> of \<open>main\<close>).  The doubles are exact
  for every \<open>max_pack\<close> that the scan can produce (below \<open>2^31\<close>, or at least
  \<open>2^64 - 2^31\<close>, where both sides of the comparison round as the integers compare), so
  the comparison is the one of the integers.
\<close>

function pack_width_loop :: "nat \<Rightarrow> nat \<Rightarrow> nat" where
  "pack_width_loop width max_pack =
     (if (2 :: int) ^ width - 1 < int max_pack
      then pack_width_loop (width + 1) max_pack
      else width)"
  by pat_completeness auto
termination
proof (relation "measure (\<lambda>(width, max_pack). max_pack - width)")
  show "wf (measure (\<lambda>(width, max_pack). max_pack - width))" by simp
next
  fix width max_pack :: nat
  assume a: "(2 :: int) ^ width - 1 < int max_pack"
  have "int width < 2 ^ width" by (rule of_nat_less_two_power)
  then have "width < max_pack" using a by linarith
  then show "((width + 1, max_pack), (width, max_pack))
        \<in> measure (\<lambda>(width, max_pack). max_pack - width)" by simp
qed

declare pack_width_loop.simps [simp del]

text \<open>
  Lines 2762 to 2781 of \<open>main\<close>: the packed values and the pack width of one grid with
  \<open>num_points\<close> points, of which \<open>num_to_pack\<close> are to be packed.
\<close>

definition prescan_pack_width :: "real list \<Rightarrow> nat \<Rightarrow> nat \<Rightarrow> real \<Rightarrow> int \<Rightarrow> int
    \<Rightarrow> error + (cint list \<times> nat)" where
  "prescan_pack_width gps num_points num_to_pack Rv Dv Ev =
     (if num_points > length gps then Inl OutOfBounds
      else bindE (scan_points (take num_points gps) 0 num_to_pack [] 0 Rv Dv Ev)
             (\<lambda>(pvals, max_pack). Inr (pvals, pack_width_loop 1 (unat max_pack))))"

section \<open>GRIB edition 1: the decoder (unpackgrib1.c)\<close>

text \<open>
  The fields of \<open>GRIBMessage\<close> that the functions below read or write (the grid
  description beyond \<open>data_rep\<close>, \<open>nx\<close> and \<open>ny\<close> is left out).  \<open>buffer_capacity\<close>,
  \<open>bcapacity\<close> and \<open>gcapacity\<close> are the lengths of \<open>buffer\<close>, \<open>bitmap\<close> and \<open>gridpoints\<close>;
  \<open>pds_ext\<close> is empty where the pointer is \<open>NULL\<close>.  The fields are decoded from octets of
  at most 24 bits, so the \<open>int\<close> arithmetic on them does not overflow.
\<close>

record GRIBMessage =
  total_len :: int
  pds_len :: int
  pds_ext_len :: int
  bds_len :: int
  ed_num :: int
  table_ver :: int
  center_id :: int
  gen_proc :: int
  grid_type :: int
  param :: int
  level_type :: int
  lvl1 :: int
  lvl2 :: int
  fcst_units :: int
  p1 :: int
  p2 :: int
  t_range :: int
  navg :: int
  nmiss :: int
  sub_center_id :: int
  bds_flag :: int
  pack_width :: int
  gds_included :: int
  bms_included :: int
  yr :: int
  mo :: int
  dy :: int
  time :: int
  offset :: nat
  E :: int
  D :: int
  data_rep :: int
  nx :: int
  ny :: int
  buffer :: "byte list"
  pds_ext :: "byte list"
  bitmap :: "byte list"
  bitmap_len :: nat
  ref_val :: real
  gridpoints :: "real list"

definition ibm2real :: "byte list \<Rightarrow> nat \<Rightarrow> error + real" where
  "ibm2real buf off =
     bindE (get_int buf 0 off 1) (\<lambda>sign.
     bindE (get_int buf 0 (off + 1) 7) (\<lambda>exp0.
     let exp = exp0 - 64 in
     bindE (get_int buf 0 (off + 8) 24) (\<lambda>fr.
     let native_real = power_int 2 (- 24) * real_of_int fr * power_int 16 exp
     in Inr (if sign = 1 then - native_real else native_real))))"

subsection \<open>The Product Definition Section\<close>

text \<open>
  \<open>c_buf[k+n]\<close> for \<open>n < len\<close>: the bytes copied into the newly allocated \<open>pds_ext\<close>.
\<close>

definition copy_ext :: "byte list \<Rightarrow> nat \<Rightarrow> int \<Rightarrow> error + byte list" where
  "copy_ext buf k len =
     (if k + nat len \<le> length buf then Inr (take (nat len) (drop k buf)) else Inl OutOfBounds)"

text \<open>
  \<open>unpack_PDS\<close>.  A local \<open>int\<close> that \<open>get_bits\<close> fills (\<open>flag\<close>, \<open>min\<close>, \<open>cent\<close>, \<open>sign\<close>) has no
  value before the call; every such call asks for at least one bit, so the value passed
  for it (0) is never the result.
\<close>

definition unpack_PDS :: "GRIBMessage \<Rightarrow> error + GRIBMessage" where
  "unpack_PDS grib_msg0 =
     (let buf = buffer grib_msg0 in
      bindE
        (if ed_num grib_msg0 = 0 then Inr (grib_msg0\<lparr>offset := 32\<rparr>)
         else
           let m = grib_msg0\<lparr>offset := 64\<rparr> in
           bindE (get_int buf (pds_len m) (offset m) 24) (\<lambda>v.
           let m = m\<lparr>pds_len := v\<rparr> in
           bindE (get_int buf (table_ver m) (offset m + 24) 8) (\<lambda>v.
           Inr (m\<lparr>table_ver := v\<rparr>)))) (\<lambda>m.
      let off = offset m in
      bindE (get_int buf (center_id m) (off + 32) 8) (\<lambda>v. let m = m\<lparr>center_id := v\<rparr> in
      bindE (get_int buf (gen_proc m) (off + 40) 8) (\<lambda>v. let m = m\<lparr>gen_proc := v\<rparr> in
      bindE (get_int buf (grid_type m) (off + 48) 8) (\<lambda>v. let m = m\<lparr>grid_type := v\<rparr> in
      bindE (get_int buf 0 (off + 56) 8) (\<lambda>flag.
      let m = m\<lparr>gds_included := (if flag AND 0x80 = 0x80 then 1 else 0)\<rparr>;
          m = m\<lparr>bms_included := (if flag AND 0x40 = 0x40 then 1 else 0)\<rparr> in
      bindE (get_int buf (param m) (off + 64) 8) (\<lambda>v. let m = m\<lparr>param := v\<rparr> in
      bindE (get_int buf (level_type m) (off + 72) 8) (\<lambda>v. let m = m\<lparr>level_type := v\<rparr> in
      bindE
        (if level_type m \<in> {100, 103, 105, 107, 109, 111, 113, 115, 125, 160, 200, 201} then
           bindE (get_int buf (lvl1 m) (off + 80) 16) (\<lambda>v. Inr (m\<lparr>lvl1 := v, lvl2 := 0\<rparr>))
         else
           bindE (get_int buf (lvl1 m) (off + 80) 8) (\<lambda>v. let m = m\<lparr>lvl1 := v\<rparr> in
           bindE (get_int buf (lvl2 m) (off + 88) 8) (\<lambda>v. Inr (m\<lparr>lvl2 := v\<rparr>)))) (\<lambda>m.
      bindE (get_int buf (yr m) (off + 96) 8) (\<lambda>v. let m = m\<lparr>yr := v\<rparr> in
      bindE (get_int buf (mo m) (off + 104) 8) (\<lambda>v. let m = m\<lparr>mo := v\<rparr> in
      bindE (get_int buf (dy m) (off + 112) 8) (\<lambda>v. let m = m\<lparr>dy := v\<rparr> in
      bindE (get_int buf (time m) (off + 120) 8) (\<lambda>v. let m = m\<lparr>time := v\<rparr> in
      bindE (get_int buf 0 (off + 128) 8) (\<lambda>min.
      let m = m\<lparr>time := time m * 100 + min\<rparr> in
      bindE (get_int buf (fcst_units m) (off + 136) 8) (\<lambda>v. let m = m\<lparr>fcst_units := v\<rparr> in
      bindE (get_int buf (p1 m) (off + 144) 8) (\<lambda>v. let m = m\<lparr>p1 := v\<rparr> in
      bindE (get_int buf (p2 m) (off + 152) 8) (\<lambda>v. let m = m\<lparr>p2 := v\<rparr> in
      bindE (get_int buf (t_range m) (off + 160) 8) (\<lambda>v. let m = m\<lparr>t_range := v\<rparr> in
      bindE
        (if p2 m \<in> {3, 4, 51, 113, 114, 115, 116, 117, 123, 124} then
           bindE (get_int buf (navg m) (off + 168) 16) (\<lambda>v. Inr (m\<lparr>navg := v\<rparr>))
         else Inr (m\<lparr>navg := 0\<rparr>)) (\<lambda>m.
      bindE (get_int buf (nmiss m) (off + 184) 8) (\<lambda>v. let m = m\<lparr>nmiss := v\<rparr> in
      if ed_num m = 0 then Inr (m\<lparr>pds_ext_len := 0, offset := off + 192\<rparr>)
      else
        bindE (get_int buf 0 (off + 192) 8) (\<lambda>cent.
        let m = m\<lparr>yr := yr m + (cent - 1) * 100\<rparr> in
        bindE (get_int buf (sub_center_id m) (off + 200) 8) (\<lambda>v. let m = m\<lparr>sub_center_id := v\<rparr> in
        bindE (get_int buf 0 (off + 208) 1) (\<lambda>sign.
        bindE (get_int buf (D m) (off + 209) 15) (\<lambda>v.
        let m = m\<lparr>D := (if sign = 1 then - v else v)\<rparr>;
            m = m\<lparr>offset := off + 224\<rparr>
        in if pds_len m > 28 then
             (if pds_len m < 40 then
                let m = m\<lparr>pds_ext_len := pds_len m - 28\<rparr> in
                bindE (copy_ext buf 36 (pds_ext_len m)) (\<lambda>ext.
                Inr (m\<lparr>pds_ext := ext, offset := offset m + nat (pds_ext_len m * 8)\<rparr>))
              else
                let m = m\<lparr>pds_ext_len := pds_len m - 40\<rparr> in
                bindE (copy_ext buf 48 (pds_ext_len m)) (\<lambda>ext.
                Inr (m\<lparr>pds_ext := ext, offset := offset m + nat ((pds_ext_len m + 12) * 8)\<rparr>)))
           else Inr (m\<lparr>pds_ext_len := 0\<rparr>)))))))))))))))))))))))))"

subsection \<open>The Bit-Map and Binary Data Sections\<close>

text \<open>
  The loop \<open>for (n = 0; n < bcapacity; ++n)\<close> that fills \<open>bitmap\<close> one bit at a time from
  \<open>boff\<close> on, by recursion on the number of elements still to fill.
\<close>

fun read_bitmap :: "nat \<Rightarrow> byte list \<Rightarrow> nat \<Rightarrow> error + byte list" where
  "read_bitmap 0 buf boff = Inr []"
| "read_bitmap (Suc k) buf boff =
     bindE (get_bits buf 0 boff 1) (\<lambda>bval.
     bindE (read_bitmap k buf (boff + 1)) (\<lambda>rest. Inr (ucast bval # rest)))"

text \<open>
  The loop \<open>for (n = 0; n < num_packed; ++n)\<close> that fills \<open>packed\<close>: the values and the
  offset after the last of them.
\<close>

fun read_packed :: "nat \<Rightarrow> byte list \<Rightarrow> nat \<Rightarrow> nat \<Rightarrow> error + (cint list \<times> nat)" where
  "read_packed 0 buf off pw = Inr ([], off)"
| "read_packed (Suc k) buf off pw =
     bindE (get_bits buf 0 off pw) (\<lambda>v.
     bindE (read_packed k buf (off + pw) pw) (\<lambda>(rest, off'). Inr (v # rest, off')))"

text \<open>
  The loop over the gridpoints of a recognised grid (lines 843 to 856), by recursion on the
  number of points still to do; \<open>bcnt\<close> and \<open>pcnt\<close> are the two counters.  \<open>packed\<close> is
  \<open>None\<close> for the null pointer.  In \<open>bitmap_len == 0 || (bitmap_len > 0 && bitmap[bcnt++] == 1)\<close>
  the bitmap is read, and \<open>bcnt\<close> moves on, only when \<open>bitmap_len\<close> is not 0.
\<close>

fun bds_points :: "nat \<Rightarrow> nat \<Rightarrow> nat \<Rightarrow> nat \<Rightarrow> byte list \<Rightarrow> cint list option
    \<Rightarrow> real \<Rightarrow> real \<Rightarrow> real \<Rightarrow> error + real list" where
  "bds_points 0 bcnt pcnt bm_len bm packed rv e d = Inr []"
| "bds_points (Suc k) bcnt pcnt bm_len bm packed rv e d =
     bindE (if bm_len = 0 then Inr (True, bcnt)
            else if bcnt < length bm then Inr (bm ! bcnt = 1, bcnt + 1)
            else Inl OutOfBounds) (\<lambda>(present, bcnt).
       if present then
         (case packed of
            None \<Rightarrow>
              bindE (bds_points k bcnt pcnt bm_len bm packed rv e d) (\<lambda>rest. Inr (rv # rest))
          | Some pk \<Rightarrow>
              if pcnt < length pk then
                bindE (bds_points k bcnt (pcnt + 1) bm_len bm packed rv e d) (\<lambda>rest.
                  Inr ((rv + real_of_int (sint (pk ! pcnt)) * e / d) # rest))
              else Inl OutOfBounds)
       else
         bindE (bds_points k bcnt pcnt bm_len bm packed rv e d) (\<lambda>rest.
           Inr (GRIB_MISSING_VALUE # rest)))"

text \<open>
  The loop of the \<open>default\<close> branch (no recognised grid, lines 872 to 879): it reads
  \<open>packed[pcnt++]\<close> without the test for the null pointer.
\<close>

fun bds_stream :: "nat \<Rightarrow> nat \<Rightarrow> nat \<Rightarrow> nat \<Rightarrow> byte list \<Rightarrow> cint list option
    \<Rightarrow> real \<Rightarrow> real \<Rightarrow> real \<Rightarrow> error + real list" where
  "bds_stream 0 bcnt pcnt bm_len bm packed rv e d = Inr []"
| "bds_stream (Suc k) bcnt pcnt bm_len bm packed rv e d =
     bindE (if bm_len = 0 then Inr (True, bcnt)
            else if bcnt < length bm then Inr (bm ! bcnt = 1, bcnt + 1)
            else Inl OutOfBounds) (\<lambda>(present, bcnt).
       if present then
         (case packed of
            None \<Rightarrow> Inl OutOfBounds
          | Some pk \<Rightarrow>
              if pcnt < length pk then
                bindE (bds_stream k bcnt (pcnt + 1) bm_len bm packed rv e d) (\<lambda>rest.
                  Inr ((rv + real_of_int (sint (pk ! pcnt)) * e / d) # rest))
              else Inl OutOfBounds)
       else
         bindE (bds_stream k bcnt pcnt bm_len bm packed rv e d) (\<lambda>rest.
           Inr (GRIB_MISSING_VALUE # rest)))"

text \<open>
  The first part of \<open>unpack_BDS\<close>: the Bit-Map Section, when the message has one.  A
  negative \<open>(bms_length-6)*8-ub\<close> becomes a \<open>size_t\<close> that no allocation can satisfy, and
  the store through the null pointer is a fault.
\<close>

definition unpack_BDS_bitmap :: "GRIBMessage \<Rightarrow> error + GRIBMessage" where
  "unpack_BDS_bitmap grib_msg =
     (let buf = buffer grib_msg; off = offset grib_msg in
      if bms_included grib_msg = 1 then
        bindE (get_int buf 0 off 24) (\<lambda>bms_length.
        let m = (if ed_num grib_msg = 0
                 then grib_msg\<lparr>total_len := total_len grib_msg + bms_length\<rparr>
                 else grib_msg) in
        bindE (get_int buf 0 (off + 24) 8) (\<lambda>ub.
        bindE (get_int buf 0 (off + 32) 16) (\<lambda>tref.
        if tref \<noteq> 0 then Inl Fatal
        else if (bms_length - 6) * 8 - ub < 0 then Inl OutOfBounds
        else
          let m = m\<lparr>bitmap_len := nat ((bms_length - 6) * 8 - ub)\<rparr>;
              bcapacity = (if bitmap_len m > length (bitmap m) then bitmap_len m
                           else length (bitmap m))
          in bindE (read_bitmap bcapacity buf (off + 48)) (\<lambda>bits.
             Inr (m\<lparr>bitmap := bits, offset := off + nat (bms_length * 8)\<rparr>)))))
      else Inr (grib_msg\<lparr>bitmap_len := 0\<rparr>))"

text \<open>
  \<open>unpack_BDS\<close>.  \<open>malloc\<close> returns a non-null pointer for a size of 0 (as glibc does), so
  \<open>packed\<close> is null exactly when \<open>pack_width\<close> is not positive; a negative
  \<open>(bds_len*8-88-ub)/pack_width\<close> is a size that no allocation can satisfy.  \<open>fresh\<close> is
  the indeterminate content of the newly allocated \<open>packed\<close>, which the \<open>default\<close> branch
  reads without having stored into it.  The new \<open>gridpoints\<close> are the values of the loop
  followed by what the array held beyond them.
\<close>

definition unpack_BDS :: "GRIBMessage \<Rightarrow> (nat \<Rightarrow> cint) \<Rightarrow> error + GRIBMessage" where
  "unpack_BDS grib_msg0 fresh =
     bindE (unpack_BDS_bitmap grib_msg0) (\<lambda>m.
     let buf = buffer m; off = offset m in
     bindE (get_int buf (bds_len m) off 24) (\<lambda>v.
     let m = m\<lparr>bds_len := v\<rparr>;
         m = (if ed_num m = 0 then m\<lparr>total_len := total_len m + (bds_len m + 1)\<rparr> else m) in
     bindE (get_int buf (bds_flag m) (off + 24) 4) (\<lambda>v. let m = m\<lparr>bds_flag := v\<rparr> in
     bindE (get_int buf 0 (off + 28) 4) (\<lambda>ub.
     bindE (get_int buf (pack_width m) (off + 80) 8) (\<lambda>v. let m = m\<lparr>pack_width := v\<rparr> in
     bindE (get_int buf 0 (off + 32) 1) (\<lambda>sign.
     bindE (get_int buf (E m) (off + 33) 15) (\<lambda>v.
     let m = m\<lparr>E := (if sign = 1 then - v else v)\<rparr>;
         e = power_int 2 (E m);
         d = power_int 10 (D m) in
     bindE (ibm2real buf (off + 48)) (\<lambda>r.
     let m = m\<lparr>ref_val := r / d\<rparr> in
     if bds_flag m AND 0x40 = 0 then
       let m = m\<lparr>offset := off + 88\<rparr>;
           q = (bds_len m * 8 - 88 - ub) sdiv pack_width m
       in if pack_width m > 0 \<and> q < 0 then Inl OutOfBounds
          else
            let num_packed = (if pack_width m > 0 then nat q else 0);
                pw = to_size_t (pack_width m)
            in if data_rep m \<in> {0, 4, 10, 1, 3, 5} then
                 let m = (if data_rep m \<in> {0, 4, 10} \<and> grid_type m \<in> {23, 24, 26, 63, 64}
                          then m\<lparr>offset := offset m + nat (pack_width m)\<rparr> else m) in
                 bindE (read_packed num_packed buf (offset m) pw) (\<lambda>(pk, off').
                 let m = m\<lparr>offset := off'\<rparr>;
                     packed = (if pack_width m > 0 then Some pk else None);
                     num_points = to_size_t (ny m * nx m) in
                 bindE (bds_points num_points 0 0 (bitmap_len m) (bitmap m) packed
                          (ref_val m) e d) (\<lambda>vals.
                 Inr (m\<lparr>gridpoints := vals @ drop (length vals) (gridpoints m)\<rparr>)))
               else
                 let packed = (if pack_width m > 0 then Some (map fresh [0..<num_packed])
                               else None);
                     num_points = (if num_packed > bitmap_len m then num_packed else bitmap_len m) in
                 bindE (bds_stream num_points 0 0 (bitmap_len m) (bitmap m) packed
                          (ref_val m) e d) (\<lambda>vals.
                 Inr (m\<lparr>gridpoints := vals @ drop (length vals) (gridpoints m)\<rparr>))
     else Inl Fatal))))))))"

section \<open>GRIB edition 1 to edition 2: the encoder (grib1to2.c)\<close>

subsection \<open>The calendar\<close>

text \<open>
  The global array \<open>mdays\<close> is \<open>{0,31,28,31,30,31,30,31,31,30,31,30,31}\<close>.  The program
  stores into element 2 only, and only 29 or 28: the state of the array is whether
  element 2 is 29.
\<close>

definition mdays :: "bool \<Rightarrow> int list" where
  "mdays feb29 = [0, 31, if feb29 then 29 else 28, 31, 30, 31, 30, 31, 31, 30, 31, 30, 31]"

definition leap_year :: "int \<Rightarrow> bool" where
  "leap_year y = (y smod 4 = 0 \<and> (y smod 100 \<noteq> 0 \<or> y smod 400 = 0))"

text \<open>
  The loop \<open>while (*dy > mdays[*mo])\<close> over \<open>*yr\<close>, \<open>*mo\<close>, \<open>*dy\<close> and the array.  A month
  outside the array is a read out of bounds.
\<close>

function add_time_loop :: "int \<Rightarrow> int \<Rightarrow> int \<Rightarrow> bool \<Rightarrow> error + (int \<times> int \<times> int \<times> bool)" where
  "add_time_loop y m d feb29 =
     (if m < 0 \<or> 12 < m then Inl OutOfBounds
      else if d > mdays feb29 ! nat m then
        (let d = d - mdays feb29 ! nat m;
             m = m + 1
         in if m > 12 then add_time_loop (y + 1) 1 d (leap_year (y + 1))
            else add_time_loop y m d feb29)
      else Inr (y, m, d, feb29))"
  by pat_completeness auto
termination
proof (relation "measures [\<lambda>(y, m, d, feb29). nat d, \<lambda>(y, m, d, feb29). if m = 0 then 1 else 0]")
  show "wf (measures [\<lambda>(y, m, d, feb29). nat d, \<lambda>(y, m, d, feb29). if m = 0 then 1 else (0::nat)])"
    by simp
next
  fix y m d :: int and feb29 :: bool and x xa
  assume a: "\<not> (m < 0 \<or> 12 < m)" "mdays feb29 ! nat m < d"
    and x: "x = d - mdays feb29 ! nat m" "xa = m + 1"
  have c: "m = 0 \<or> m = 1 \<or> m = 2 \<or> m = 3 \<or> m = 4 \<or> m = 5 \<or> m = 6 \<or> m = 7 \<or> m = 8 \<or> m = 9
      \<or> m = 10 \<or> m = 11 \<or> m = 12" using a(1) by presburger
  {
    assume "12 < xa"
    then have "m = 12" using x(2) a(1) by simp
    then show "((y + 1, 1, x, leap_year (y + 1)), (y, m, d, feb29))
        \<in> measures [\<lambda>(y, m, d, feb29). nat d, \<lambda>(y, m, d, feb29). if m = 0 then 1 else (0::nat)]"
      using a(2) x(1) by (simp add: mdays_def)
  }
  {
    assume "\<not> 12 < xa"
    show "((y, xa, x, feb29), (y, m, d, feb29))
        \<in> measures [\<lambda>(y, m, d, feb29). nat d, \<lambda>(y, m, d, feb29). if m = 0 then 1 else (0::nat)]"
      using c a(2) x by (auto simp: mdays_def)
  }
qed

declare add_time_loop.simps [simp del]

text \<open>
  \<open>add_time\<close>: the values of \<open>*yr\<close>, \<open>*mo\<close>, \<open>*dy\<close>, \<open>*time\<close> and the state of \<open>mdays\<close> after
  the call.  \<open>/\<close> and \<open>%\<close> of C truncate towards zero.
\<close>

definition add_time :: "int \<Rightarrow> int \<Rightarrow> int \<Rightarrow> int \<Rightarrow> int \<Rightarrow> int \<Rightarrow> bool
    \<Rightarrow> error + (int \<times> int \<times> int \<times> int \<times> bool)" where
  "add_time time_to_add time_units y m d t feb29 =
     (let hr = t sdiv 100;
          min = t smod 100
      in bindE (if time_units = 0 then Inr (min + time_to_add)
                else if time_units = 1 then Inr (min + time_to_add * 60)
                else if time_units = 2 then Inr (min + time_to_add * 1440)
                else Inl Fatal) (\<lambda>min.
         if min \<ge> 60 then
           (let hr = hr + min sdiv 60;
                min = min smod 60
            in if hr \<ge> 24 then
                 (let d = d + hr sdiv 24;
                      hr = hr smod 24
                  in bindE (add_time_loop y m d (leap_year y)) (\<lambda>(y, m, d, feb29).
                       Inr (y, m, d, hr * 100 + min, feb29)))
               else Inr (y, m, d, hr * 100 + min, feb29))
         else Inr (y, m, d, hr * 100 + min, feb29)))"

subsection \<open>The Product Definition Section\<close>

text \<open>
  The six local variables of \<open>pack_PDS\<close> that describe the two surfaces, and the
  \<open>switch (msg->level_type)\<close> that sets them.  The block of \<open>case 104\<close> has no \<open>break\<close>:
  control goes on into the block of \<open>case 105\<close>.
\<close>

record levels =
  lvl1_type :: int
  lvl2_type :: int
  lvl1_scale :: int
  lvl2_scale :: int
  lvl1_value :: int
  lvl2_value :: int

definition pds_levels :: "GRIBMessage \<Rightarrow> levels" where
  "pds_levels msg =
     (let l = \<lparr>lvl1_type = level_type msg, lvl2_type = 255, lvl1_scale = 0, lvl2_scale = 255,
               lvl1_value = lvl1 msg, lvl2_value = lvl2 msg\<rparr>;
          t = level_type msg
      in if t = 20 \<or> t = 100 then l\<lparr>lvl1_scale := - 2\<rparr>
         else if t = 101 then l\<lparr>lvl1_type := 100, lvl2_type := 100, lvl1_scale := - 3, lvl2_scale := - 3\<rparr>
         else if t = 102 then l\<lparr>lvl1_type := 101\<rparr>
         else if t = 103 then l\<lparr>lvl1_type := 102\<rparr>
         else if t = 104 then
           (l\<lparr>lvl1_type := 102, lvl2_type := 102, lvl1_scale := - 2, lvl2_scale := - 2\<rparr>)
             \<lparr>lvl1_type := 103\<rparr>
         else if t = 105 then l\<lparr>lvl1_type := 103\<rparr>
         else if t = 106 then l\<lparr>lvl1_type := 103, lvl2_type := 103, lvl1_scale := - 2, lvl2_scale := - 2\<rparr>
         else if t = 107 then l\<lparr>lvl1_type := 104, lvl1_scale := 4\<rparr>
         else if t = 108 then l\<lparr>lvl1_type := 104, lvl2_type := 104, lvl1_scale := 2, lvl2_scale := 2\<rparr>
         else if t = 109 then l\<lparr>lvl1_type := 105\<rparr>
         else if t = 110 then l\<lparr>lvl1_type := 105, lvl2_type := 105\<rparr>
         else if t = 111 then l\<lparr>lvl1_type := 106, lvl1_scale := 2\<rparr>
         else if t = 112 then l\<lparr>lvl1_type := 106, lvl2_type := 106, lvl1_scale := 2, lvl2_scale := 2\<rparr>
         else if t = 113 then l\<lparr>lvl1_type := 107\<rparr>
         else if t = 114 then l\<lparr>lvl1_type := 107, lvl2_type := 107,
                                 lvl1_value := 475 - lvl1_value l, lvl2_value := 475 - lvl2_value l\<rparr>
         else if t = 115 then l\<lparr>lvl1_type := 108, lvl1_scale := - 2\<rparr>
         else if t = 116 then l\<lparr>lvl1_type := 108, lvl2_type := 108, lvl1_scale := - 2, lvl2_scale := - 2\<rparr>
         else if t = 117 then l\<lparr>lvl1_type := 109, lvl1_scale := 9\<rparr>
         else if t = 119 then l\<lparr>lvl1_type := 111, lvl1_scale := 4\<rparr>
         else if t = 120 then l\<lparr>lvl1_type := 111, lvl2_type := 111, lvl1_scale := 2, lvl2_scale := 2\<rparr>
         else if t = 121 then l\<lparr>lvl1_type := 100, lvl2_type := 100, lvl1_scale := - 2, lvl2_scale := - 2,
                                 lvl1_value := 1100 - lvl1_value l, lvl2_value := 1100 - lvl2_value l\<rparr>
         else if t = 125 then l\<lparr>lvl1_type := 103, lvl1_scale := 2\<rparr>
         else if t = 128 then l\<lparr>lvl1_type := 104, lvl2_type := 104, lvl1_scale := 3, lvl2_scale := 3,
                                 lvl1_value := 1100 - lvl1_value l, lvl2_value := 1100 - lvl2_value l\<rparr>
         else if t = 141 then l\<lparr>lvl1_type := 100, lvl2_type := 100, lvl1_scale := - 3, lvl2_scale := - 2,
                                 lvl2_value := 1100 - lvl2_value l\<rparr>
         else l)"

text \<open>
  The statistical process of template 8: \<open>process\<close> and \<open>time_incr\<close> (which has a value
  only where \<open>process\<close> is set), or the \<open>exit(1)\<close> where neither the time range nor the
  parameter gives one.
\<close>

definition stat_process :: "GRIBMessage \<Rightarrow> error + (int \<times> int)" where
  "stat_process msg =
     (if t_range msg = 4 then Inr (1, 2)
      else if param msg = 15 then Inr (2, 2)
      else if param msg = 16 then Inr (3, 2)
      else Inl Fatal)"

text \<open>
  The \<open>set_bits\<close> calls of \<open>pack_PDS\<close>, in program order: those that both templates
  share, those of template 8 up to the number missing, and those after the statistical
  process is known.
\<close>

definition pds_common :: "GRIBMessage \<Rightarrow> int \<Rightarrow> int \<Rightarrow> int \<Rightarrow> int \<Rightarrow> nat \<Rightarrow> bit_write list" where
  "pds_common msg len template_num parameter_category parameter_number off =
     [(to_cint len, off, 32),
      (4, off + 32, 8),
      (0, off + 40, 16),
      (to_cint template_num, off + 56, 16),
      (to_cint parameter_category, off + 72, 8),
      (to_cint parameter_number, off + 80, 8),
      (255, off + 88, 8),
      (to_cint (gen_proc msg), off + 96, 8),
      (255, off + 104, 8),
      (65535, off + 112, 16),
      (255, off + 128, 8),
      (to_cint (fcst_units msg), off + 136, 8)]
     @ (if t_range msg = 0 \<or> t_range msg = 10 then [(to_cint (p1 msg), off + 144, 32)]
        else if t_range msg = 1 then [(0, off + 144, 32)]
        else [])
     @ (let l = pds_levels msg in
        [(to_cint (lvl1_type l), off + 176, 8),
         (if lvl1_scale l < 0 then 1 else 0, off + 184, 1),
         (to_cint \<bar>lvl1_scale l\<bar>, off + 185, 7),
         (to_cint (lvl1_value l), off + 192, 32),
         (to_cint (lvl2_type l), off + 224, 8),
         (if lvl2_scale l < 0 then 1 else 0, off + 232, 1),
         (to_cint \<bar>lvl2_scale l\<bar>, off + 233, 7),
         (to_cint (lvl2_value l), off + 240, 32)])"

definition pds_end_time :: "int \<Rightarrow> int \<Rightarrow> int \<Rightarrow> int \<Rightarrow> nat \<Rightarrow> bit_write list" where
  "pds_end_time y m d t off =
     [(to_cint y, off + 272, 16),
      (to_cint m, off + 288, 8),
      (to_cint d, off + 296, 8),
      (to_cint (t sdiv 100), off + 304, 8),
      (to_cint (t smod 100), off + 312, 8),
      (0, off + 320, 8),
      (1, off + 328, 8),
      (0, off + 336, 32)]"

definition pds_stat :: "GRIBMessage \<Rightarrow> int \<Rightarrow> int \<Rightarrow> nat \<Rightarrow> bit_write list" where
  "pds_stat msg process time_incr off =
     [(to_cint process, off + 368, 8),
      (to_cint time_incr, off + 376, 8),
      (to_cint (fcst_units msg), off + 384, 8),
      (to_cint (p2 msg - p1 msg), off + 392, 32),
      (to_cint (fcst_units msg), off + 424, 8),
      (0, off + 432, 32)]"

text \<open>
  \<open>pack_PDS\<close>: the buffer, \<open>*offset\<close> and the state of \<open>mdays\<close> after the call.
\<close>

definition pack_PDS :: "GRIBMessage \<Rightarrow> bool \<Rightarrow> int \<Rightarrow> int \<Rightarrow> byte list \<Rightarrow> nat
    \<Rightarrow> error + (byte list \<times> nat \<times> bool)" where
  "pack_PDS msg feb29 parameter_category parameter_number grib2_buffer off =
     bindE (if t_range msg \<in> {0, 1, 10} then Inr (34, 0)
            else if t_range msg \<in> {2, 3, 4} then Inr (58, 8)
            else Inl Fatal) (\<lambda>(len, template_num).
     bindE (set_bits_all grib2_buffer
              (pds_common msg len template_num parameter_category parameter_number off)) (\<lambda>buf.
     bindE (if template_num = 8 then
              bindE (add_time (p2 msg) (fcst_units msg) (yr msg) (mo msg) (dy msg) (time msg) feb29)
                (\<lambda>(y, m, d, t, feb29).
              bindE (set_bits_all buf (pds_end_time y m d t off)) (\<lambda>buf.
              bindE (stat_process msg) (\<lambda>(process, time_incr).
              bindE (set_bits_all buf (pds_stat msg process time_incr off)) (\<lambda>buf.
                Inr (buf, feb29)))))
            else Inr (buf, feb29)) (\<lambda>(buf, feb29).
       Inr (buf, off + nat (len * 8), feb29))))"

section \<open>Properties of the bit-packed octet codec\<close>
lemma bmask_eq: "bmask = 255" by (simp add: bmask_def)
lemma lmask_eq: "lmask = -1" by (simp add: lmask_def)

lemma bit_byte_shift:
  fixes b :: byte
  shows "bit (push_bit m (ucast b :: cint)) k \<longleftrightarrow> k < 32 \<and> m \<le> k \<and> k - m < 8 \<and> bit b (k - m)"
  by (auto simp: bit_simps dest: bit_imp_le_length)

lemma field_index:
  fixes r T w d k :: nat
  assumes "r = T - 8 * w" "8 * w < T" "r \<le> 8 + d" "d \<le> k" "k < r"
  shows "(T - 1 - k) div 8 = w" "7 - (T - 1 - k) mod 8 = 8 + k - r"
proof -
  have j: "T - 1 - k = 8 * w + (r - 1 - k)" using assms by arith
  have lt: "r - 1 - k < 8" using assms by arith
  show "(T - 1 - k) div 8 = w" unfolding j using lt by simp
  have "(T - 1 - k) mod 8 = r - 1 - k" unfolding j using lt by simp
  moreover have "7 - (r - 1 - k) = 8 + k - r" using assms by arith
  ultimately show "7 - (T - 1 - k) mod 8 = 8 + k - r" by simp
qed

lemma get_bits_loop_inv:
  assumes "rshift = 8 - int r" "r = T - 8 * wskip" "8 * wskip < T" "T \<le> 8 * length buf"
    "r \<le> hi"
    "\<forall>k. bit loc k \<longleftrightarrow> (r \<le> k \<and> k < hi \<and> k < 32 \<and> bbit buf (T - 1 - k))"
  shows "\<exists>w' r' loc'. get_bits_loop buf wskip rshift loc = Inr (w', 8 - int r', loc') \<and>
           r' = T - 8 * w' \<and> 8 * w' < T \<and> r' \<le> 8 \<and> w' < length buf \<and>
           (\<forall>k. bit loc' k \<longleftrightarrow> (r' \<le> k \<and> k < hi \<and> k < 32 \<and> bbit buf (T - 1 - k)))"
  using assms
proof (induction buf wskip rshift loc arbitrary: r rule: get_bits_loop.induct)
  case (1 buf wskip rshift loc)
  show ?case
  proof (cases "rshift < 0")
    case False
    with 1(2-) show ?thesis
      by (subst get_bits_loop.simps) (auto intro!: exI[of _ wskip] exI[of _ r])
  next
    case True
    then have r8: "r > 8" using 1(2) by simp
    have wl: "wskip < length buf" using 1(3,4,5) r8 by simp
    let ?x = "push_bit (nat (- rshift)) (ucast (buf ! wskip)) :: cint"
    have nr: "nat (- rshift) = r - 8" using 1(2) r8 by simp
    have xbit: "bit ?x k \<longleftrightarrow> (r - 8 \<le> k \<and> k < r \<and> k < 32 \<and> bbit buf (T - 1 - k))" for k
    proof (cases "r - 8 \<le> k \<and> k < r")
      case False
      then show ?thesis using r8 by (auto simp: bit_byte_shift nr)
    next
      case True
      have rd: "r \<le> 8 + (r - 8)" by simp
      have e1: "(T - 1 - k) div 8 = wskip" and e2: "7 - (T - 1 - k) mod 8 = 8 + k - r"
        using field_index[OF 1(3) 1(4) rd, of k] True by simp_all
      have "8 + k - r = k - (r - 8)" "k - (r - 8) < 8" using True r8 by arith+
      then show ?thesis unfolding bbit_def e1 e2 bit_byte_shift nr using True by auto
    qed
    have disj: "\<not> bit loc n \<or> \<not> bit ?x n" for n
      using 1(7) xbit[of n] by auto
    have sum: "loc + ?x = loc OR ?x" by (rule disjunctive_add) (rule disj)
    have inv': "\<forall>k. bit (loc + ?x) k \<longleftrightarrow> (r - 8 \<le> k \<and> k < hi \<and> k < 32 \<and> bbit buf (T - 1 - k))"
    proof
      fix k
      have l: "bit loc k \<longleftrightarrow> (r \<le> k \<and> k < hi \<and> k < 32 \<and> bbit buf (T - 1 - k))"
        using 1(7) by blast
      have "r - 8 \<le> k \<and> k < hi \<longleftrightarrow> (r \<le> k \<and> k < hi) \<or> (r - 8 \<le> k \<and> k < r)"
        using 1(6) r8 by arith
      then show "bit (loc + ?x) k \<longleftrightarrow> (r - 8 \<le> k \<and> k < hi \<and> k < 32 \<and> bbit buf (T - 1 - k))"
        unfolding sum bit_or_iff l xbit by blast
    qed
    have "\<exists>w' r' loc'. get_bits_loop buf (wskip + 1) (rshift + 8) (loc + ?x) = Inr (w', 8 - int r', loc') \<and>
           r' = T - 8 * w' \<and> 8 * w' < T \<and> r' \<le> 8 \<and> w' < length buf \<and>
           (\<forall>k. bit loc' k \<longleftrightarrow> (r' \<le> k \<and> k < hi \<and> k < 32 \<and> bbit buf (T - 1 - k)))"
    proof (rule 1(1)[OF True wl, of "r - 8"])
      show "rshift + 8 = 8 - int (r - 8)" using 1(2) r8 by simp
      show "r - 8 = T - 8 * (wskip + 1)" using 1(3) by simp
      show "8 * (wskip + 1) < T" using 1(3) r8 by simp
      show "T \<le> 8 * length buf" by fact
      show "r - 8 \<le> hi" using 1(6) by simp
      show "\<forall>k. bit (loc + ?x) k \<longleftrightarrow> (r - 8 \<le> k \<and> k < hi \<and> k < 32 \<and> bbit buf (T - 1 - k))" by (rule inv')
    qed
    then show ?thesis using True wl
      by (subst get_bits_loop.simps) simp
  qed
qed

lemma last_piece:
  fixes b :: byte
  assumes "0 < r" "r \<le> 8"
  shows "bit (if 8 - int r \<noteq> 0
            then drop_bit (nat (8 - int r)) (ucast b) AND NOT (push_bit (8 - nat (8 - int r)) 255)
            else (ucast b :: cint)) k \<longleftrightarrow> k < r \<and> bit b (8 + k - r)"
proof (cases "r = 8")
  case True
  then show ?thesis by (auto simp: bit_simps dest: bit_imp_le_length)
next
  case False
  then have a: "nat (8 - int r) = 8 - r" "8 - (8 - r) = r" "8 - int r \<noteq> 0" using assms by simp_all
  have c: "k < r \<Longrightarrow> 8 - r + k = 8 + k - r" using assms by arith
  show ?thesis unfolding a using assms False c
    by (auto simp: bit_simps dest: bit_imp_le_length)
qed

lemma get_bits_spec:
  assumes n: "0 < n" "n \<le> 32" and fit: "off + n \<le> 8 * length buf"
  shows "\<exists>v. get_bits buf loc off n = Inr v \<and> (\<forall>k. bit v k \<longleftrightarrow> (k < n \<and> bbit buf (off + n - 1 - k)))"
proof -
  let ?w = "off div 8"
  let ?T = "off + n"
  let ?hi = "off mod 8 + n"
  have "off = 8 * ?w + off mod 8" by simp
  then have T: "?hi = ?T - 8 * ?w" by arith
  have wT: "8 * ?w < ?T" using n T by arith
  show ?thesis
  proof (cases "?hi \<le> 8")
    case True
    have wl: "?w < length buf" using fit n by auto
    have rs: "\<not> (8 - int (off mod 8) - int n < 0)" using True by simp
    have nrs: "nat (8 - int (off mod 8) - int n) = 8 - ?hi" using True by simp
    have hd: "?hi \<le> 8 + 0" using True by simp
    have idx: "(?T - 1 - k) div 8 = ?w \<and> 7 - (?T - 1 - k) mod 8 = 8 - ?hi + k" if "k < n" for k
    proof -
      have "k < ?hi" using that by simp
      from field_index[OF T wT hd _ this] True that show ?thesis by simp
    qed
    let ?v = "drop_bit (8 - ?hi) (ucast (buf ! ?w)) :: cint"
    have vb: "bit (?v AND NOT (push_bit n (-1))) k \<longleftrightarrow> (k < n \<and> bbit buf (?T - 1 - k))" for k
      using idx[of k] n by (auto simp: bit_simps bbit_def dest: bit_imp_le_length)
    have vb32: "n = 32 \<Longrightarrow> bit ?v k \<longleftrightarrow> (k < n \<and> bbit buf (?T - 1 - k))" for k
      using True by simp
    show ?thesis
      using n wl rs vb vb32 by (simp add: get_bits_def Let_def nrs lmask_eq)
  next
    case False
    have rs: "8 - int (off mod 8) - int n < 0" using False by simp
    have ex: "\<exists>w' r' loc'. get_bits_loop buf ?w (8 - int (off mod 8) - int n) 0 = Inr (w', 8 - int r', loc') \<and>
           r' = ?T - 8 * w' \<and> 8 * w' < ?T \<and> r' \<le> 8 \<and> w' < length buf \<and>
           (\<forall>k. bit loc' k \<longleftrightarrow> (r' \<le> k \<and> k < ?hi \<and> k < 32 \<and> bbit buf (?T - 1 - k)))"
    proof (rule get_bits_loop_inv[where r = ?hi])
      show "8 - int (off mod 8) - int n = 8 - int ?hi" by simp
      show "?hi = ?T - 8 * ?w" by (rule T)
      show "8 * ?w < ?T" by (rule wT)
      show "?T \<le> 8 * length buf" by fact
      show "?hi \<le> ?hi" by simp
      show "\<forall>k. bit (0::cint) k \<longleftrightarrow> (?hi \<le> k \<and> k < ?hi \<and> k < 32 \<and> bbit buf (?T - 1 - k))" by simp
    qed
    then obtain w' r' loc' where
      loop: "get_bits_loop buf ?w (8 - int (off mod 8) - int n) 0 = Inr (w', 8 - int r', loc')"
      and r'1: "r' = ?T - 8 * w'" and r'2: "8 * w' < ?T" and r'3: "r' \<le> 8" and r'4: "w' < length buf"
      and loc': "\<And>k. bit loc' k \<longleftrightarrow> (r' \<le> k \<and> k < ?hi \<and> k < 32 \<and> bbit buf (?T - 1 - k))"
      by blast
    have r0: "0 < r'" using r'1 r'2 by simp
    let ?b = "buf ! w'"
    let ?x = "if 8 - int r' \<noteq> 0
              then drop_bit (nat (8 - int r')) (ucast ?b) AND NOT (push_bit (8 - nat (8 - int r')) bmask)
              else (ucast ?b :: cint)"
    have hd: "r' \<le> 8 + 0" using r'3 by simp
    have xbit: "bit ?x k \<longleftrightarrow> (k < r' \<and> bbit buf (?T - 1 - k))" for k
    proof (cases "k < r'")
      case True
      have "(?T - 1 - k) div 8 = w'" "7 - (?T - 1 - k) mod 8 = 8 + k - r'"
        using field_index[OF r'1 r'2 hd _ True] by simp_all
      then have "bbit buf (?T - 1 - k) = bit ?b (8 + k - r')" unfolding bbit_def by simp
      then show ?thesis unfolding bmask_eq using last_piece[OF r0 r'3, of ?b k] True by simp
    next
      case F: False
      then show ?thesis unfolding bmask_eq using last_piece[OF r0 r'3, of ?b k] by simp
    qed
    have sum: "loc' + ?x = loc' OR ?x"
      by (rule disjunctive_add) (use loc' xbit in auto)
    have hi: "r' \<le> ?hi" using r'3 False by simp
    have fin: "bit (loc' + ?x) k \<longleftrightarrow> (k < ?hi \<and> k < 32 \<and> bbit buf (?T - 1 - k))" for k
      unfolding sum bit_or_iff loc' xbit using hi r'3 by auto
    have m: "bit ((loc' + ?x) AND NOT (push_bit n (-1))) k \<longleftrightarrow> (k < n \<and> bbit buf (?T - 1 - k))" for k
      using fin[of k] n by (auto simp: bit_simps)
    have m32: "n = 32 \<Longrightarrow> bit (loc' + ?x) k \<longleftrightarrow> (k < n \<and> bbit buf (?T - 1 - k))" for k
      using fin[of k] by auto
    have gb: "get_bits buf loc off n = Inr (if n \<noteq> 32 then (loc' + ?x) AND NOT (push_bit n (-1)) else loc' + ?x)"
      unfolding get_bits_def Let_def using n rs r'4
      by (simp add: loop lmask_eq del: One_nat_def)
    show ?thesis unfolding gb using m m32 by auto
  qed
qed

lemma bmask_mask: "bmask = mask 8" by (simp add: bmask_def mask_eq_exp_minus_1)

lemma single_byte_bits:
  fixes b :: byte and src :: cint
  assumes "s < 8" "0 < n" "s + n \<le> 8" "q < 8"
  shows "bit (ucast ((ucast (if 8 - s \<noteq> 8 then (ucast (ucast b AND push_bit (8 - s) bmask) :: byte) else 0) :: cint)
            OR ucast (if s + n \<noteq> 8 then (ucast (ucast b AND NOT (push_bit (8 - (s + n)) bmask)) :: byte) else 0)
            OR push_bit (8 - s - n) (ucast (ucast (if 32 \<noteq> n then src AND NOT (push_bit n lmask) else src) :: byte))) :: byte) q
         \<longleftrightarrow> (if 8 - (s + n) \<le> q \<and> q < 8 - s then bit src (q - (8 - (s + n))) else bit b q)"
proof -
  have n32: "32 \<noteq> n" using assms by simp
  consider "q < 8 - (s + n)" | "8 - (s + n) \<le> q" "q < 8 - s" | "8 - s \<le> q" by linarith
  then show ?thesis
  proof cases
    case 1
    then show ?thesis using assms n32 by (auto simp: bit_simps bmask_mask lmask_eq)
  next
    case 2
    then have "q - (8 - s - n) < n" using assms by arith
    moreover have "8 - s - n = 8 - (s + n)" by simp
    ultimately show ?thesis using 2 assms n32 by (auto simp: bit_simps bmask_mask lmask_eq)
  next
    case 3
    then show ?thesis using assms n32 by (auto simp: bit_simps bmask_mask lmask_eq)
  qed
qed


lemma first_byte_bits:
  fixes b :: byte and src :: cint
  assumes "s < 8" "8 < s + n" "n \<le> 32" "q < 8"
  shows "bit (ucast ((ucast (if 8 - s \<noteq> 8 then (ucast (ucast b AND push_bit (8 - s) bmask) :: byte) else 0) :: cint)
            OR (signed_drop_bit (n - (8 - s)) src AND NOT (push_bit (n - (n - (8 - s))) lmask))) :: byte) q
         \<longleftrightarrow> (if q < 8 - s then bit src (q + (n - (8 - s))) else bit b q)"
proof -
  have e: "n - (n - (8 - s)) = 8 - s" using assms by arith
  show ?thesis
  proof (cases "q < 8 - s")
    case True
    then have "q + (n - (8 - s)) < 32" using assms by arith
    then have "\<not> (32 - (n - (8 - s)) \<le> q)" by arith
    then show ?thesis unfolding e using True assms
      by (auto simp: bit_simps bmask_mask lmask_eq add.commute)
  next
    case False
    then show ?thesis unfolding e using assms
      by (auto simp: bit_simps bmask_mask lmask_eq)
  qed
qed

lemma mid_byte_bits:
  fixes src :: cint
  assumes "0 < m" "m \<le> 23" "q < 8"
  shows "bit (mid_byte src m) q \<longleftrightarrow> bit src (q + m)"
proof -
  have "\<not> (32 - m \<le> q)" using assms by arith
  then show ?thesis using assms by (auto simp: mid_byte_def bit_simps lmask_eq add.commute)
qed

lemma last_byte_bits:
  fixes b :: byte and src :: cint
  assumes "0 < m" "m \<le> 8" "q < 8"
  shows "bit (ucast ((ucast (if 8 - m \<noteq> 8 then (ucast (ucast b AND NOT (push_bit (8 - m) bmask)) :: byte) else 0) :: cint)
            OR push_bit (8 - m) (ucast (ucast (if (8::nat) > 32 then src AND NOT (push_bit 32 bmask) else src) :: byte))) :: byte) q
         \<longleftrightarrow> (if 8 - m \<le> q then bit src (q - (8 - m)) else bit b q)"
  using assms by (auto simp: bit_simps bmask_mask)


lemma set_bits_loop_inv:
  assumes "mr = T - 8 * (wskip + 1)" "8 * (wskip + 1) < T" "T \<le> 8 * length buf"
  shows "\<exists>buf' w' m'. set_bits_loop src buf wskip mr = Inr (buf', w', m') \<and>
           m' = T - 8 * (w' + 1) \<and> 8 * (w' + 1) < T \<and> m' \<le> 8 \<and> wskip \<le> w' \<and>
           length buf' = length buf \<and>
           (\<forall>i. buf' ! i = (if wskip < i \<and> i \<le> w' then mid_byte src (T - 8 * (i + 1)) else buf ! i))"
  using assms
proof (induction src buf wskip mr rule: set_bits_loop.induct)
  case (1 src buf wskip mr)
  show ?case
  proof (cases "mr > 8")
    case False
    with 1(2-) show ?thesis
      by (subst set_bits_loop.simps) auto
  next
    case True
    have wl: "wskip + 1 < length buf" using 1(2,3,4) True by arith
    let ?buf1 = "buf[wskip + 1 := mid_byte src (mr - 8)]"
    have "\<exists>buf' w' m'. set_bits_loop src ?buf1 (wskip + 1) (mr - 8) = Inr (buf', w', m') \<and>
           m' = T - 8 * (w' + 1) \<and> 8 * (w' + 1) < T \<and> m' \<le> 8 \<and> wskip + 1 \<le> w' \<and>
           length buf' = length ?buf1 \<and>
           (\<forall>i. buf' ! i = (if wskip + 1 < i \<and> i \<le> w' then mid_byte src (T - 8 * (i + 1)) else ?buf1 ! i))"
    proof (rule 1(1)[OF True refl refl wl])
      show "mr - 8 = T - 8 * (wskip + 1 + 1)" using 1(2) by simp
      show "8 * (wskip + 1 + 1) < T" using 1(2) True by simp
      show "T \<le> 8 * length ?buf1" using 1(4) by simp
    qed
    then obtain buf' w' m' where
      l: "set_bits_loop src ?buf1 (wskip + 1) (mr - 8) = Inr (buf', w', m')"
      and p: "m' = T - 8 * (w' + 1)" "8 * (w' + 1) < T" "m' \<le> 8" "wskip + 1 \<le> w'"
        "length buf' = length ?buf1"
      and b: "\<And>i. buf' ! i = (if wskip + 1 < i \<and> i \<le> w' then mid_byte src (T - 8 * (i + 1)) else ?buf1 ! i)"
      by blast
    have m8: "mr - 8 = T - 8 * (wskip + 1 + 1)" using 1(2) by simp
    have b': "buf' ! i = (if wskip < i \<and> i \<le> w' then mid_byte src (T - 8 * (i + 1)) else buf ! i)" for i
    proof (cases "i = wskip + 1")
      case True
      then show ?thesis using b[of i] p(4) wl m8 by simp
    next
      case False
      then show ?thesis using b[of i] by auto
    qed
    have "set_bits_loop src buf wskip mr = Inr (buf', w', m')"
      using True wl l by (subst set_bits_loop.simps) (simp add: Let_def)
    then show ?thesis using p b' by auto
  qed
qed


lemma bbit_from_bytes:
  assumes "\<And>i q. q < 8 \<Longrightarrow> bit (buf' ! i) q =
             (if off \<le> 8 * i + 7 - q \<and> 8 * i + 7 - q < T then bit src (T - 1 - (8 * i + 7 - q))
              else bit (buf ! i) q)"
  shows "bbit buf' j = (if off \<le> j \<and> j < T then bit src (T - 1 - j) else bbit buf j)"
proof -
  have "8 * (j div 8) + 7 - (7 - j mod 8) = j" by arith
  moreover have "7 - j mod 8 < 8" by arith
  ultimately show ?thesis using assms[of "7 - j mod 8" "j div 8"] by (simp add: bbit_def)
qed

lemma set_bits_single:
  fixes src :: cint
  assumes n: "0 < n" "n \<le> 32" and fit: "off + n \<le> 8 * length buf" and one: "off mod 8 + n \<le> 8"
  shows "\<exists>buf'. set_bits buf src off n = Inr buf' \<and> length buf' = length buf \<and>
           (\<forall>j. bbit buf' j = (if off \<le> j \<and> j < off + n then bit src (off + n - 1 - j) else bbit buf j))"
proof -
  define w where "w = off div 8"
  define s where "s = off mod 8"
  define b where "b = buf ! w"
  define X where "X = (ucast ((ucast (if 8 - s \<noteq> 8 then (ucast (ucast b AND push_bit (8 - s) bmask) :: byte) else 0) :: cint)
            OR ucast (if s + n \<noteq> 8 then (ucast (ucast b AND NOT (push_bit (8 - (s + n)) bmask)) :: byte) else 0)
            OR push_bit (8 - s - n) (ucast (ucast (if 32 \<noteq> n then src AND NOT (push_bit n lmask) else src) :: byte))) :: byte)"
  have wl: "w < length buf" using fit n by (auto simp: w_def)
  have s8: "s < 8" by (simp add: s_def)
  have one': "s + n \<le> 8" using one by (simp add: s_def)
  have off: "off = 8 * w + s" by (simp add: w_def s_def)
  have sb: "set_bits buf src off n = Inr (buf[w := X])"
    using n wl one' unfolding X_def b_def w_def s_def by (simp add: set_bits_def Let_def)
  have xb: "bit X q \<longleftrightarrow> (if 8 - (s + n) \<le> q \<and> q < 8 - s then bit src (q - (8 - (s + n))) else bit b q)"
    if "q < 8" for q
    unfolding X_def by (rule single_byte_bits[OF s8 n(1) one' that])
  have bytes: "bit (buf[w := X] ! i) q =
             (if off \<le> 8 * i + 7 - q \<and> 8 * i + 7 - q < off + n then bit src (off + n - 1 - (8 * i + 7 - q))
              else bit (buf ! i) q)" if q: "q < 8" for i q
  proof (cases "i = w")
    case True
    have e: "buf[w := X] ! i = X" using True wl by simp
    show ?thesis
    proof (cases "8 - (s + n) \<le> q \<and> q < 8 - s")
      case T: True
      have win: "off \<le> 8 * i + 7 - q \<and> 8 * i + 7 - q < off + n" using off q True one' T by arith
      have idx: "off + n - 1 - (8 * i + 7 - q) = q - (8 - (s + n))" using off q True one' T by arith
      show ?thesis unfolding e idx using win T xb[OF q] by simp
    next
      case F: False
      have win: "\<not> (off \<le> 8 * i + 7 - q \<and> 8 * i + 7 - q < off + n)" using off q True one' F by arith
      have "bit X q = bit (buf ! i) q" using F xb[OF q] True by (auto simp: b_def)
      then show ?thesis unfolding e using win by auto
    qed
  next
    case False
    have "\<not> (off \<le> 8 * i + 7 - q \<and> 8 * i + 7 - q < off + n)"
      using off q False one' by arith
    then show ?thesis using False by auto
  qed
  have "bbit (buf[w := X]) j = (if off \<le> j \<and> j < off + n then bit src (off + n - 1 - j) else bbit buf j)" for j
    by (rule bbit_from_bytes) (rule bytes)
  then show ?thesis unfolding sb by simp
qed


lemma idx_mid:
  fixes j q i T :: nat
  assumes "j + q = 8 * i + 7" "8 * i + 8 < T"
  shows "T - 1 - j = q + (T - 8 * (i + 1))"
proof -
  have "T - 1 - j + j + 1 = T" using assms by linarith
  moreover have "T - 8 * (i + 1) + 8 * i + 8 = T" using assms by simp
  ultimately show ?thesis using assms by linarith
qed

lemma set_bits_multi:
  fixes src :: cint
  assumes n: "0 < n" "n \<le> 32" and fit: "off + n \<le> 8 * length buf" and many: "8 < off mod 8 + n"
  shows "\<exists>buf'. set_bits buf src off n = Inr buf' \<and> length buf' = length buf \<and>
           (\<forall>j. bbit buf' j = (if off \<le> j \<and> j < off + n then bit src (off + n - 1 - j) else bbit buf j))"
proof -
  define w where "w = off div 8"
  define s where "s = off mod 8"
  define T where "T = off + n"
  define b where "b = buf ! w"
  define X where "X = (ucast ((ucast (if 8 - s \<noteq> 8 then (ucast (ucast b AND push_bit (8 - s) bmask) :: byte) else 0) :: cint)
            OR (signed_drop_bit (n - (8 - s)) src AND NOT (push_bit (n - (n - (8 - s))) lmask))) :: byte)"
  define buf1 where "buf1 = buf[w := X]"
  have s8: "s < 8" by (simp add: s_def)
  have many': "8 < s + n" using many by (simp add: s_def)
  have off: "off = 8 * w + s" by (simp add: w_def s_def)
  have wl: "w < length buf" using fit n by (auto simp: w_def)
  have xb: "bit X q \<longleftrightarrow> (if q < 8 - s then bit src (q + (n - (8 - s))) else bit b q)" if "q < 8" for q
    unfolding X_def by (rule first_byte_bits[OF s8 many' n(2) that])
  have "\<exists>buf' w' m'. set_bits_loop src buf1 w (n - (8 - s)) = Inr (buf', w', m') \<and>
           m' = T - 8 * (w' + 1) \<and> 8 * (w' + 1) < T \<and> m' \<le> 8 \<and> w \<le> w' \<and>
           length buf' = length buf1 \<and>
           (\<forall>i. buf' ! i = (if w < i \<and> i \<le> w' then mid_byte src (T - 8 * (i + 1)) else buf1 ! i))"
  proof (rule set_bits_loop_inv)
    show "n - (8 - s) = T - 8 * (w + 1)" using off many' s8 unfolding T_def by arith
    show "8 * (w + 1) < T" using off many' unfolding T_def by arith
    show "T \<le> 8 * length buf1" using fit unfolding T_def buf1_def by simp
  qed
  then obtain buf' w' m' where
    l: "set_bits_loop src buf1 w (n - (8 - s)) = Inr (buf', w', m')"
    and p: "m' = T - 8 * (w' + 1)" "8 * (w' + 1) < T" "m' \<le> 8" "w \<le> w'" "length buf' = length buf1"
    and bb: "\<And>i. buf' ! i = (if w < i \<and> i \<le> w' then mid_byte src (T - 8 * (i + 1)) else buf1 ! i)"
    by blast
  have m0: "0 < m'" using p(1,2) by simp
  have len: "length buf' = length buf" using p(5) by (simp add: buf1_def)
  have wl': "w' + 1 < length buf'" using p(2) fit len unfolding T_def by arith
  define c where "c = buf' ! (w' + 1)"
  define Z where "Z = (ucast ((ucast (if 8 - m' \<noteq> 8 then (ucast (ucast c AND NOT (push_bit (8 - m') bmask)) :: byte) else 0) :: cint)
            OR push_bit (8 - m') (ucast (ucast (if (8::nat) > 32 then src AND NOT (push_bit 32 bmask) else src) :: byte))) :: byte)"
  have zb: "bit Z q \<longleftrightarrow> (if 8 - m' \<le> q then bit src (q - (8 - m')) else bit c q)" if "q < 8" for q
    unfolding Z_def by (rule last_byte_bits[OF m0 p(3) that])
  have c: "c = buf ! (w' + 1)" using bb[of "w' + 1"] p(4) by (simp add: c_def buf1_def)
  have c1: "(n = 0) = False" "(32 < n) = False" "(off div 8 < length buf) = True"
    "(off mod 8 + n \<le> 8) = False" "(w' + 1 < length buf') = True"
    using n wl many' wl' by (simp_all add: w_def s_def)
  have sb: "set_bits buf src off n = Inr (buf'[w' + 1 := Z])"
    unfolding set_bits_def Let_def c1 Z_def c_def
    by (simp only: c1 if_False if_True not_True_eq_False not_False_eq_True
          l[unfolded buf1_def X_def b_def s_def w_def] bindE.simps prod.case)
  have bytes: "bit (buf'[w' + 1 := Z] ! i) q =
             (if off \<le> 8 * i + 7 - q \<and> 8 * i + 7 - q < T then bit src (T - 1 - (8 * i + 7 - q))
              else bit (buf ! i) q)" if q: "q < 8" for i q
  proof -
    define j where "j = 8 * i + 7 - q"
    have j: "j + q = 8 * i + 7" using q unfolding j_def by simp
    have jl: "8 * i \<le> j" and ju: "j \<le> 8 * i + 7" using j q by linarith+
    have Tm: "T = 8 * w' + 8 + m'" using p(1,2) by simp
    have Tn: "T = 8 * w + s + n" using off by (simp add: T_def)
    have goal_eq: "?thesis \<longleftrightarrow> bit (buf'[w' + 1 := Z] ! i) q =
             (if off \<le> j \<and> j < T then bit src (T - 1 - j) else bit (buf ! i) q)"
      unfolding j_def by simp
    consider "i < w" | "i = w" | "w < i" "i \<le> w'" | "i = w' + 1" | "w' + 1 < i" by linarith
    then have "bit (buf'[w' + 1 := Z] ! i) q =
             (if off \<le> j \<and> j < T then bit src (T - 1 - j) else bit (buf ! i) q)"
    proof cases
      case 1
      have e: "buf'[w' + 1 := Z] ! i = buf ! i" using 1 p(4) bb[of i] by (simp add: buf1_def)
      have "j < off" using 1 off ju by linarith
      then show ?thesis unfolding e by auto
    next
      case 2
      have e: "buf'[w' + 1 := Z] ! i = X" using 2 p(4) bb[of i] wl by (simp add: buf1_def)
      show ?thesis
      proof (cases "q < 8 - s")
        case True
        have qs: "q + s < 8" using True by simp
        have win1: "off \<le> j" using 2 off j qs by linarith
        have win2: "j < T" using 2 ju many' Tn by linarith
        have "T - 1 - j + (8 - s) = q + n" using 2 j qs many' Tn s8 win2 by linarith
        then have idx: "T - 1 - j = q + (n - (8 - s))" using many' s8 by linarith
        show ?thesis unfolding e idx using win1 win2 True xb[OF q] by simp
      next
        case False
        have "j < off" using 2 off j False s8 by linarith
        moreover have "bit X q = bit (buf ! i) q" using False xb[OF q] 2 by (auto simp: b_def)
        ultimately show ?thesis unfolding e by auto
      qed
    next
      case 3
      have i1: "8 * w + 8 \<le> 8 * i" and i2: "8 * i \<le> 8 * w'" using 3 by simp_all
      have lt: "8 * i + 8 < T" using i2 Tm m0 by linarith
      have m1: "0 < T - 8 * (i + 1)" using lt by simp
      have "T \<le> 8 * i + 8 + 23" using i1 Tn s8 n by linarith
      then have m2: "T - 8 * (i + 1) \<le> 23" by simp
      have e: "buf'[w' + 1 := Z] ! i = mid_byte src (T - 8 * (i + 1))" using 3 bb[of i] by simp
      have win1: "off \<le> j" using i1 off jl s8 by linarith
      have win2: "j < T" using lt ju by linarith
      have idx: "T - 1 - j = q + (T - 8 * (i + 1))" using j lt by (rule idx_mid)
      show ?thesis unfolding e idx using win1 win2 mid_byte_bits[OF m1 m2 q, of src] by simp
    next
      case 4
      have e: "buf'[w' + 1 := Z] ! i = Z" using 4 wl' by simp
      have i1: "8 * i = 8 * w' + 8" using 4 by simp
      have ww: "8 * w \<le> 8 * w'" using p(4) by simp
      show ?thesis
      proof (cases "8 - m' \<le> q")
        case True
        have qm: "8 \<le> q + m'" using True by simp
        have win1: "off \<le> j" using i1 ww off jl s8 by linarith
        have win2: "j < T" using i1 j Tm qm by linarith
        have "T - 1 - j + (8 - m') = q" using i1 j Tm qm p(3) win2 by linarith
        then have idx: "T - 1 - j = q - (8 - m')" by linarith
        show ?thesis unfolding e idx using win1 win2 True zb[OF q] by simp
      next
        case False
        have "T \<le> j" using i1 j Tm False p(3) by linarith
        moreover have "bit Z q = bit (buf ! i) q" using False zb[OF q] 4 c by auto
        ultimately show ?thesis unfolding e by auto
      qed
    next
      case 5
      have e: "buf'[w' + 1 := Z] ! i = buf ! i" using 5 p(4) bb[of i] by (simp add: buf1_def)
      have "8 * w' + 16 \<le> 8 * i" using 5 by simp
      then have "T \<le> j" using jl Tm p(3) by linarith
      then show ?thesis unfolding e by auto
    qed
    then show ?thesis unfolding goal_eq .
  qed
  have "bbit (buf'[w' + 1 := Z]) j = (if off \<le> j \<and> j < T then bit src (T - 1 - j) else bbit buf j)" for j
    by (rule bbit_from_bytes) (rule bytes)
  then show ?thesis unfolding sb using len by (simp add: T_def)
qed

lemma set_bits_spec:
  fixes src :: cint
  assumes "0 < n" "n \<le> 32" "off + n \<le> 8 * length buf"
  shows "\<exists>buf'. set_bits buf src off n = Inr buf' \<and> length buf' = length buf \<and>
           (\<forall>j. bbit buf' j = (if off \<le> j \<and> j < off + n then bit src (off + n - 1 - j) else bbit buf j))"
  using set_bits_single[OF assms] set_bits_multi[OF assms] by (cases "off mod 8 + n \<le> 8") auto

lemma apart_not_both:
  "windows_apart w v \<Longrightarrow> in_window j w \<Longrightarrow> \<not> in_window j v"
  by (cases w; cases v) auto

lemma disjoint_unique:
  "disjoint_windows ws \<Longrightarrow> x \<in> set ws \<Longrightarrow> y \<in> set ws \<Longrightarrow> in_window j x \<Longrightarrow> in_window j y \<Longrightarrow> x = y"
proof (induction ws)
  case Nil
  then show ?case by simp
next
  case (Cons w ws)
  then show ?case
    by (auto simp: list_all_iff dest: apart_not_both)
qed

lemma set_bits_all_spec:
  assumes "list_all (window_fits (length buf)) ws" "disjoint_windows ws"
  shows "\<exists>buf'. set_bits_all buf ws = Inr buf' \<and> length buf' = length buf \<and>
           (\<forall>j. bbit buf' j = (case find (in_window j) ws of None \<Rightarrow> bbit buf j
                                | Some (src, off, n) \<Rightarrow> bit src (off + n - 1 - j)))"
  using assms
proof (induction ws arbitrary: buf)
  case Nil
  then show ?case by simp
next
  case (Cons w ws)
  obtain src off n where w: "w = (src, off, n)" by (cases w) auto
  have fit: "0 < n" "n \<le> 32" "off + n \<le> 8 * length buf" using Cons.prems(1) w by auto
  from set_bits_spec[OF fit, of src] obtain buf1 where
    b1: "set_bits buf src off n = Inr buf1" "length buf1 = length buf"
    and bb1: "\<And>j. bbit buf1 j = (if off \<le> j \<and> j < off + n then bit src (off + n - 1 - j) else bbit buf j)"
    by blast
  have "list_all (window_fits (length buf1)) ws" "disjoint_windows ws"
    using Cons.prems b1(2) by auto
  from Cons.IH[OF this] obtain buf' where
    b': "set_bits_all buf1 ws = Inr buf'" "length buf' = length buf1"
    and bb': "\<And>j. bbit buf' j = (case find (in_window j) ws of None \<Rightarrow> bbit buf1 j
                                | Some (src, off, n) \<Rightarrow> bit src (off + n - 1 - j))"
    by blast
  have none: "find (in_window j) ws = None" if "in_window j w" for j
    using Cons.prems(2) that by (auto simp: find_None_iff list_all_iff simp del: in_window.simps dest: apart_not_both)
  have "bbit buf' j = (case find (in_window j) (w # ws) of None \<Rightarrow> bbit buf j
                                | Some (src, off, n) \<Rightarrow> bit src (off + n - 1 - j))" for j
  proof (cases "in_window j w")
    case True
    then show ?thesis using none[OF True] bb'[of j] bb1[of j] w by simp
  next
    case False
    then show ?thesis using bb'[of j] bb1[of j] w by (auto split: option.splits)
  qed
  then show ?case using b1 b' w by simp
qed

lemma set_bits_all_get:
  assumes "list_all (window_fits (length buf)) ws" "disjoint_windows ws"
    and "set_bits_all buf ws = Inr buf'" and m: "(src, off, n) \<in> set ws"
  shows "get_bits buf' loc off n = Inr (take_bit n src)"
proof -
  from set_bits_all_spec[OF assms(1,2)] assms(3) have
    len: "length buf' = length buf"
    and bb': "\<And>j. bbit buf' j = (case find (in_window j) ws of None \<Rightarrow> bbit buf j
                                | Some (src, off, n) \<Rightarrow> bit src (off + n - 1 - j))"
    by auto
  have fit: "0 < n" "n \<le> 32" "off + n \<le> 8 * length buf'"
    using assms(1) m len by (auto simp: list_all_iff)
  from get_bits_spec[OF fit, of loc] obtain v where
    v: "get_bits buf' loc off n = Inr v" "\<And>k. bit v k \<longleftrightarrow> (k < n \<and> bbit buf' (off + n - 1 - k))"
    by blast
  have "bit v k \<longleftrightarrow> bit (take_bit n src) k" for k
  proof (cases "k < n")
    case True
    let ?j = "off + n - 1 - k"
    have inw: "in_window ?j (src, off, n)" using True by auto
    then obtain x where x: "find (in_window ?j) ws = Some x"
      using m by (cases "find (in_window ?j) ws") (auto simp: find_None_iff)
    then have "x \<in> set ws" "in_window ?j x" by (auto simp: find_Some_iff)
    then have "x = (src, off, n)" using disjoint_unique[OF assms(2) _ m _ inw] by blast
    moreover have "off + n - 1 - ?j = k" using True by arith
    ultimately show ?thesis using v(2)[of k] bb'[of ?j] x True by (simp add: bit_take_bit_iff)
  next
    case False
    then show ?thesis using v(2)[of k] by (simp add: bit_take_bit_iff)
  qed
  then have "v = take_bit n src" by (rule bit_eqI)
  then show ?thesis using v(1) by simp
qed

lemma set_bits_all_frame:
  assumes "list_all (window_fits (length buf)) ws" "disjoint_windows ws"
    and "set_bits_all buf ws = Inr buf'" and out: "\<forall>w \<in> set ws. \<not> in_window j w"
  shows "bbit buf' j = bbit buf j"
proof -
  from set_bits_all_spec[OF assms(1,2)] assms(3) have
    bb': "bbit buf' j = (case find (in_window j) ws of None \<Rightarrow> bbit buf j
                                | Some (src, off, n) \<Rightarrow> bit src (off + n - 1 - j))"
    by auto
  have "find (in_window j) ws = None" using out by (simp add: find_None_iff del: in_window.simps)
  then show ?thesis using bb' by simp
qed

text \<open>
  C5.  BitStream round trip.  For every buffer and every finite sequence of \<open>set_bits\<close>
  writes at pairwise disjoint bit windows, each of width 1 to 32 and inside the buffer,
  all the writes succeed; afterwards \<open>get_bits\<close> at the offset and width of each window
  returns the low \<open>n\<close> bits of the value written there, whatever \<open>*loc\<close> held, and every
  bit of the buffer outside the windows is as it was.
\<close>

theorem bitstream_round_trip:
  assumes "list_all (window_fits (length buf)) ws" "disjoint_windows ws"
  shows "\<exists>buf'. set_bits_all buf ws = Inr buf' \<and> length buf' = length buf \<and>
           (\<forall>(src, off, n) \<in> set ws. \<forall>loc. get_bits buf' loc off n = Inr (take_bit n src)) \<and>
           (\<forall>j < 8 * length buf. (\<forall>w \<in> set ws. \<not> in_window j w) \<longrightarrow> bbit buf' j = bbit buf j)"
proof -
  from set_bits_all_spec[OF assms] obtain buf' where
    b': "set_bits_all buf ws = Inr buf'" "length buf' = length buf"
    by blast
  show ?thesis
    using b' set_bits_all_get[OF assms b'(1)] set_bits_all_frame[OF assms b'(1)] by auto
qed

theorem bitstream_round_trip_witness:
  "list_all (window_fits (length [0x12, 0x34, 0x56, 0x78, 0x9A, 0xBC :: byte]))
     [(0xABCDEF01, 8, 24), (5, 3, 3), (0xFFFFFFFF, 36, 9)] \<and>
   disjoint_windows [(0xABCDEF01, 8, 24), (5, 3, 3), (0xFFFFFFFF, 36, 9)] \<and>
   (\<exists>buf'. set_bits_all [0x12, 0x34, 0x56, 0x78, 0x9A, 0xBC]
             [(0xABCDEF01, 8, 24), (5, 3, 3), (0xFFFFFFFF, 36, 9)] = Inr buf' \<and>
      length buf' = length [0x12, 0x34, 0x56, 0x78, 0x9A, 0xBC :: byte] \<and>
      (\<forall>(src, off, n) \<in> set [(0xABCDEF01, 8, 24), (5, 3, 3), (0xFFFFFFFF :: cint, 36 :: nat, 9 :: nat)].
         \<forall>loc. get_bits buf' loc off n = Inr (take_bit n src)) \<and>
      (\<forall>j < 8 * length [0x12, 0x34, 0x56, 0x78, 0x9A, 0xBC :: byte].
         (\<forall>w \<in> set [(0xABCDEF01, 8, 24), (5, 3, 3), (0xFFFFFFFF, 36, 9)]. \<not> in_window j w)
         \<longrightarrow> bbit buf' j = bbit [0x12, 0x34, 0x56, 0x78, 0x9A, 0xBC] j))"
proof -
  have h1: "list_all (window_fits (length [0x12, 0x34, 0x56, 0x78, 0x9A, 0xBC :: byte]))
     [(0xABCDEF01, 8, 24), (5, 3, 3), (0xFFFFFFFF, 36, 9)]" by simp
  have h2: "disjoint_windows [(0xABCDEF01, 8, 24), (5, 3, 3), (0xFFFFFFFF, 36, 9)]" by simp
  show ?thesis using bitstream_round_trip[OF h1 h2] h1 h2 by blast
qed

end
